theory Spec2Isabelle
  imports Complex_Main "HOL-Library.Word"
begin

section \<open>The transform tool of the vector animation complex\<close>

text \<open>
  A shallow embedding of \<^verbatim>\<open>src/Gui/VectorAnimationComplex/TransformTool.cpp\<close>.

  Conventions of the embedding:
  \<^item> Isabelle refuses names that end in an underscore, so the trailing underscore of a
    private member or of a file-local helper is written as a prime: \<^verbatim>\<open>x0_\<close> is
    \<open>x0'\<close>, \<^verbatim>\<open>widgetPos_\<close> is \<open>widgetPos'\<close>. The enumerator \<^verbatim>\<open>None\<close> is \<open>None'\<close>.
  \<^item> \<^verbatim>\<open>int\<close> is a 32-bit word; signed overflow (undefined behaviour in C++) is taken
    to wrap around, comparisons are signed.
  \<^item> A \<^verbatim>\<open>double\<close> that the tool stores or receives is modelled by \<open>real\<close>. Where the
    source divides by a value that can be \<open>0\<close>, the result is of the type \<open>double\<close> below,
    which has a value for an infinity or a NaN. The arithmetic on finite values is exact
    in the functions of the tool; the image of the pivot, which depends on the rounding,
    is computed with operations that round.
  \<^item> A \<^verbatim>\<open>QSet\<close> of cell pointers is a duplicate-free list; the order of the list stands
    for the iteration order of the set, which the source leaves unspecified.
\<close>

subsection \<open>Widget identifiers\<close>

text \<open>
  Modelled from the spec: the declaration of \<^verbatim>\<open>enum WidgetId\<close> lives in TransformTool.h,
  which is not part of the sources. The spec describes a \<^verbatim>\<open>None\<close> sentinel followed by
  twelve widgets (four corner scales, four edge scales, four corner rotations) in one
  contiguous numeric range; the order below is the order in which the source enumerates
  them in \<^verbatim>\<open>widgetPos_\<close> and in \<^verbatim>\<open>draw\<close>.
\<close>

datatype WidgetId =
    None'
  | TopLeftScale | TopRightScale | BottomRightScale | BottomLeftScale
  | TopScale | RightScale | BottomScale | LeftScale
  | TopLeftRotate | TopRightRotate | BottomRightRotate | BottomLeftRotate

type_synonym int32 = "32 word"

text \<open>The numeric value of an enumerator (the implicit conversion to \<^verbatim>\<open>int\<close>).\<close>

fun enumValue :: "WidgetId \<Rightarrow> int32" where
  "enumValue None' = 0"
| "enumValue TopLeftScale = 1"
| "enumValue TopRightScale = 2"
| "enumValue BottomRightScale = 3"
| "enumValue BottomLeftScale = 4"
| "enumValue TopScale = 5"
| "enumValue RightScale = 6"
| "enumValue BottomScale = 7"
| "enumValue LeftScale = 8"
| "enumValue TopLeftRotate = 9"
| "enumValue TopRightRotate = 10"
| "enumValue BottomRightRotate = 11"
| "enumValue BottomLeftRotate = 12"

definition MIN_WIDGET_ID :: int32 where
  "MIN_WIDGET_ID = enumValue TopLeftScale"

definition MAX_WIDGET_ID :: int32 where
  "MAX_WIDGET_ID = enumValue BottomLeftRotate"

text \<open>
  \<^verbatim>\<open>static_cast<WidgetId>(widgetId)\<close>. The source casts only values between
  \<^verbatim>\<open>MIN_WIDGET_ID\<close> and \<^verbatim>\<open>MAX_WIDGET_ID\<close>; the last equation is never reached from it.
\<close>

definition static_cast_WidgetId :: "int32 \<Rightarrow> WidgetId" where
  "static_cast_WidgetId w =
     (if w = 1 then TopLeftScale
      else if w = 2 then TopRightScale
      else if w = 3 then BottomRightScale
      else if w = 4 then BottomLeftScale
      else if w = 5 then TopScale
      else if w = 6 then RightScale
      else if w = 7 then BottomScale
      else if w = 8 then LeftScale
      else if w = 9 then TopLeftRotate
      else if w = 10 then TopRightRotate
      else if w = 11 then BottomRightRotate
      else if w = 12 then BottomLeftRotate
      else None')"

subsection \<open>Cells\<close>

text \<open>
  Modelled from the spec: the cell classes (Cell.h, KeyVertex.h, KeyEdge.h and the
  inbetween cells) are not part of the sources. The spec describes cells as vertices,
  edges and faces, each either a key cell or an inbetween cell, with a structural
  capability: the cells a cell depends on (its boundary). A cell is modelled by its
  identity, its kind and the cells of its boundary.
\<close>

datatype CellKind =
    KeyVertexKind | KeyEdgeKind | KeyFaceKind
  | InbetweenVertexKind | InbetweenEdgeKind | InbetweenFaceKind

datatype Cell = Cell (cellId: nat) (cellKind: CellKind) (boundary: "Cell list")

type_synonym CellSet = "Cell list"

definition toInbetweenCell :: "Cell \<Rightarrow> bool" where
  "toInbetweenCell c =
     (cellKind c = InbetweenVertexKind \<or> cellKind c = InbetweenEdgeKind
      \<or> cellKind c = InbetweenFaceKind)"

definition toKeyVertex :: "Cell \<Rightarrow> bool" where
  "toKeyVertex c = (cellKind c = KeyVertexKind)"

definition toKeyEdge :: "Cell \<Rightarrow> bool" where
  "toKeyEdge c = (cellKind c = KeyEdgeKind)"

text \<open>\<^verbatim>\<open>set << c\<close> on a \<^verbatim>\<open>QSet\<close>: inserting a member again changes nothing.\<close>

definition insertCell :: "CellSet \<Rightarrow> Cell \<Rightarrow> CellSet" where
  "insertCell s c = (if c \<in> set s then s else s @ [c])"

subsection \<open>The state of the tool\<close>

record TransformTool =
  cells' :: CellSet
  idOffset' :: int32
  hovered' :: WidgetId
  manualPivot' :: bool
  draggedVertices' :: CellSet
  draggedEdges' :: CellSet
  x0' :: real
  y0' :: real
  dx' :: real
  dy' :: real
  xPivot' :: real
  yPivot' :: real

text \<open>
  The constructor initialises \<^verbatim>\<open>cells_\<close>, \<^verbatim>\<open>idOffset_\<close>, \<^verbatim>\<open>hovered_\<close> and
  \<^verbatim>\<open>manualPivot_\<close>. It leaves the six doubles uninitialised; the model takes the
  values they happen to hold as arguments.
\<close>

definition newTransformTool ::
  "real \<Rightarrow> real \<Rightarrow> real \<Rightarrow> real \<Rightarrow> real \<Rightarrow> real \<Rightarrow> TransformTool" where
  "newTransformTool a b c d e f =
     \<lparr>cells' = [], idOffset' = 0, hovered' = None', manualPivot' = False,
      draggedVertices' = [], draggedEdges' = [],
      x0' = a, y0' = b, dx' = c, dy' = d, xPivot' = e, yPivot' = f\<rparr>"

definition setCells :: "TransformTool \<Rightarrow> CellSet \<Rightarrow> TransformTool" where
  "setCells st cells = st\<lparr>cells' := cells, manualPivot' := False\<rparr>"

definition setIdOffset :: "TransformTool \<Rightarrow> int32 \<Rightarrow> TransformTool" where
  "setIdOffset st idOffset = st\<lparr>idOffset' := idOffset\<rparr>"

definition hovered :: "TransformTool \<Rightarrow> WidgetId" where
  "hovered st = hovered' st"

text \<open>
  \<^verbatim>\<open>glPickColor_\<close> hands \<^verbatim>\<open>idOffset_ + id - MIN_WIDGET_ID\<close> to \<^verbatim>\<open>Picking::glColor\<close>;
  the model returns that pick id.
\<close>

definition glPickColor' :: "TransformTool \<Rightarrow> WidgetId \<Rightarrow> int32" where
  "glPickColor' st ident = idOffset' st + enumValue ident - MIN_WIDGET_ID"

definition setNoHoveredObject :: "TransformTool \<Rightarrow> TransformTool" where
  "setNoHoveredObject st = st\<lparr>hovered' := None'\<rparr>"

definition setHoveredObject :: "TransformTool \<Rightarrow> int32 \<Rightarrow> TransformTool" where
  "setHoveredObject st ident =
     (let widgetId = ident - idOffset' st + MIN_WIDGET_ID in
      if MIN_WIDGET_ID \<le>s widgetId \<and> widgetId \<le>s MAX_WIDGET_ID
      then st\<lparr>hovered' := static_cast_WidgetId widgetId\<rparr>
      else setNoHoveredObject st)"

subsection \<open>Points, bounding boxes and widget geometry\<close>

type_synonym Vec2 = "real \<times> real"

fun vadd :: "Vec2 \<Rightarrow> Vec2 \<Rightarrow> Vec2" where
  "vadd (a, b) (c, d) = (a + c, b + d)"

fun vsub :: "Vec2 \<Rightarrow> Vec2 \<Rightarrow> Vec2" where
  "vsub (a, b) (c, d) = (a - c, b - d)"

fun smul :: "real \<Rightarrow> Vec2 \<Rightarrow> Vec2" where
  "smul r (a, b) = (r * a, r * b)"

text \<open>
  Modelled from the spec: the class \<^verbatim>\<open>BoundingBox\<close> (BoundingBox.h) is not part of the
  sources. The spec gives it the attributes \<^verbatim>\<open>xMin\<close>, \<^verbatim>\<open>xMax\<close>, \<^verbatim>\<open>yMin\<close>, \<^verbatim>\<open>yMax\<close>
  and mid accessors.
\<close>

record BoundingBox =
  xMin :: real
  xMax :: real
  yMin :: real
  yMax :: real

definition xMid :: "BoundingBox \<Rightarrow> real" where
  "xMid bb = (xMin bb + xMax bb) / 2"

definition yMid :: "BoundingBox \<Rightarrow> real" where
  "yMid bb = (yMin bb + yMax bb) / 2"

text \<open>The constants of the anonymous namespace. \<^verbatim>\<open>PI\<close> and \<^verbatim>\<open>SQRT2\<close> are the decimal
  constants the source writes, not \<open>pi\<close> and \<open>sqrt 2\<close>.\<close>

definition PI :: real where "PI = 3.14159"
definition SQRT2 :: real where "SQRT2 = 1.4142"
definition scaleWidgetCornerSize :: real where "scaleWidgetCornerSize = 8"
definition scaleWidgetEdgeSize :: real where "scaleWidgetEdgeSize = 5"
definition rotateWidgetSize :: real where "rotateWidgetSize = scaleWidgetCornerSize"
definition rotateWidgetAngleRange :: real where "rotateWidgetAngleRange = PI / 7"
definition rotateWidgetCircleCenter :: real where "rotateWidgetCircleCenter = 5"
definition rotateWidgetCircleRadius :: real where "rotateWidgetCircleRadius = 9"
definition rotateWidgetBodyHalfWidth :: real where "rotateWidgetBodyHalfWidth = 0.7"
definition rotateWidgetHeadHalfWidth :: real where "rotateWidgetHeadHalfWidth = SQRT2"
definition rotateWidgetNumSamples :: nat where "rotateWidgetNumSamples = 20"

fun widgetPos' :: "WidgetId \<Rightarrow> BoundingBox \<Rightarrow> Vec2" where
  "widgetPos' TopLeftScale bb = (xMin bb, yMin bb)"
| "widgetPos' TopRightScale bb = (xMax bb, yMin bb)"
| "widgetPos' BottomRightScale bb = (xMax bb, yMax bb)"
| "widgetPos' BottomLeftScale bb = (xMin bb, yMax bb)"
| "widgetPos' TopScale bb = (xMid bb, yMin bb)"
| "widgetPos' RightScale bb = (xMax bb, yMid bb)"
| "widgetPos' BottomScale bb = (xMid bb, yMax bb)"
| "widgetPos' LeftScale bb = (xMin bb, yMid bb)"
| "widgetPos' TopLeftRotate bb = (xMin bb, yMin bb)"
| "widgetPos' TopRightRotate bb = (xMax bb, yMin bb)"
| "widgetPos' BottomRightRotate bb = (xMax bb, yMax bb)"
| "widgetPos' BottomLeftRotate bb = (xMin bb, yMax bb)"
| "widgetPos' None' bb = (0, 0)"

fun widgetOppositePos' :: "WidgetId \<Rightarrow> BoundingBox \<Rightarrow> Vec2" where
  "widgetOppositePos' TopLeftScale bb = (xMax bb, yMax bb)"
| "widgetOppositePos' TopRightScale bb = (xMin bb, yMax bb)"
| "widgetOppositePos' BottomRightScale bb = (xMin bb, yMin bb)"
| "widgetOppositePos' BottomLeftScale bb = (xMax bb, yMin bb)"
| "widgetOppositePos' TopScale bb = (xMid bb, yMax bb)"
| "widgetOppositePos' RightScale bb = (xMin bb, yMid bb)"
| "widgetOppositePos' BottomScale bb = (xMid bb, yMin bb)"
| "widgetOppositePos' LeftScale bb = (xMax bb, yMid bb)"
| "widgetOppositePos' TopLeftRotate bb = (xMax bb, yMax bb)"
| "widgetOppositePos' TopRightRotate bb = (xMin bb, yMax bb)"
| "widgetOppositePos' BottomRightRotate bb = (xMin bb, yMin bb)"
| "widgetOppositePos' BottomLeftRotate bb = (xMax bb, yMin bb)"
| "widgetOppositePos' None' bb = (0, 0)"

fun rotateWidgetMidAngle' :: "WidgetId \<Rightarrow> real" where
  "rotateWidgetMidAngle' TopLeftRotate = 5 * PI / 4"
| "rotateWidgetMidAngle' TopRightRotate = 7 * PI / 4"
| "rotateWidgetMidAngle' BottomRightRotate = 1 * PI / 4"
| "rotateWidgetMidAngle' BottomLeftRotate = 3 * PI / 4"
| "rotateWidgetMidAngle' _ = 0"

text \<open>Unit vector of angle \<open>theta\<close>.\<close>

definition u' :: "real \<Rightarrow> Vec2" where
  "u' theta = (cos theta, sin theta)"

text \<open>The two overloads of \<^verbatim>\<open>p_\<close>: the point on the circle of center \<open>c\<close> and radius
  \<open>r\<close> along a unit vector, and at an angle.\<close>

definition p_unit :: "Vec2 \<Rightarrow> real \<Rightarrow> Vec2 \<Rightarrow> Vec2" where
  "p_unit c r u = vadd c (smul r u)"

definition p_angle :: "Vec2 \<Rightarrow> real \<Rightarrow> real \<Rightarrow> Vec2" where
  "p_angle c r theta = vadd c (smul r (u' theta))"

subsection \<open>The contour of the rotate arrow\<close>

text \<open>
  The loop over the arrow body: \<open>i\<close> counts up to \<open>n\<close>, \<open>minBodyIndex\<close> walks up and
  \<open>maxBodyIndex\<close> walks down. The indices are natural numbers; the source never
  decrements \<open>maxBodyIndex\<close> below \<open>n + 5\<close>.
\<close>

function arrowBody ::
  "nat \<Rightarrow> Vec2 \<Rightarrow> real \<Rightarrow> real \<Rightarrow> real \<Rightarrow> real \<Rightarrow> nat \<Rightarrow> nat \<Rightarrow> nat \<Rightarrow> Vec2 list \<Rightarrow> Vec2 list"
where
  "arrowBody n center rMinBody rMaxBody startAngle deltaAngle i minBodyIndex maxBodyIndex res =
     (if i < n then
        (let u = u' (startAngle + real i * deltaAngle);
             res = res[minBodyIndex := p_unit center rMinBody u];
             res = res[maxBodyIndex := p_unit center rMaxBody u]
         in arrowBody n center rMinBody rMaxBody startAngle deltaAngle
              (i + 1) (minBodyIndex + 1) (maxBodyIndex - 1) res)
      else res)"
  by pat_completeness auto
termination
  by (relation "measure (\<lambda>(n, _, _, _, _, _, i, _). n - i)") auto

declare arrowBody.simps [simp del]

text \<open>
  \<^verbatim>\<open>computeArrow_\<close>. Of the view settings only the zoom is read. The vector is created
  with \<open>2 * n + 6\<close> default-constructed points (written \<open>(0, 0)\<close> here); every one of them
  is overwritten. The size divides by the zoom: at a zoom of \<open>0\<close> the size of the source is
  not finite and the one of the model is the quotient of \<open>real\<close>, so what is said below
  about positions is meant for a zoom other than \<open>0\<close>; the number and the order of the
  points do not depend on the zoom.
\<close>

definition computeArrow' :: "WidgetId \<Rightarrow> BoundingBox \<Rightarrow> real \<Rightarrow> Vec2 list" where
  "computeArrow' ident bb zoom =
     (let n = rotateWidgetNumSamples;
          res = replicate (2 * n + 6) (0, 0);
          corner = widgetPos' ident bb;
          midAngle = rotateWidgetMidAngle' ident;
          size = rotateWidgetSize / zoom;
          center = p_angle corner (- rotateWidgetCircleCenter * size) midAngle;
          rCenterline = rotateWidgetCircleRadius * size;
          rMaxHead = rCenterline + rotateWidgetHeadHalfWidth * size;
          rMinHead = rCenterline - rotateWidgetHeadHalfWidth * size;
          rMaxBody = rCenterline + rotateWidgetBodyHalfWidth * size;
          rMinBody = rCenterline - rotateWidgetBodyHalfWidth * size;
          startAngle = midAngle - 0.5 * rotateWidgetAngleRange;
          endAngle = midAngle + 0.5 * rotateWidgetAngleRange;
          deltaAngle = rotateWidgetAngleRange / (real n - 1);
          uStart = u' startAngle;
          vStart = (- snd uStart, fst uStart);
          res = res[0 := p_unit center rMaxHead uStart];
          res = res[1 := vsub (p_unit center rCenterline uStart)
                           (smul (rotateWidgetHeadHalfWidth * size) vStart)];
          res = res[2 := p_unit center rMinHead uStart];
          uEnd = u' endAngle;
          vEnd = (- snd uEnd, fst uEnd);
          res = res[n + 3 := p_unit center rMinHead uEnd];
          res = res[n + 4 := vadd (p_unit center rCenterline uEnd)
                               (smul (rotateWidgetHeadHalfWidth * size) vEnd)];
          res = res[n + 5 := p_unit center rMaxHead uEnd]
      in arrowBody n center rMinBody rMaxBody startAngle deltaAngle 0 3 (2 * n + 5) res)"

subsection \<open>Doubles that may not be finite\<close>

text \<open>
  The coordinates held in the state and passed to the functions are modelled by \<open>real\<close>.
  \<open>continueTransform\<close> divides, and nothing keeps its denominators from being \<open>0\<close>, where
  IEEE arithmetic produces an infinity or a NaN rather than a number. The quotients and
  everything computed from them are therefore values of the type \<open>double\<close>: a finite value,
  or \<open>NonFinite\<close>, which stands for an infinity or a NaN. A sum or a product with an
  operand that is not finite is not finite (\<open>inf - inf\<close> and \<open>inf * 0\<close> are NaN), and a
  quotient of finite values is not finite exactly when the denominator is \<open>0\<close>.
\<close>

datatype double = Finite real | NonFinite

fun dadd :: "double \<Rightarrow> double \<Rightarrow> double" where
  "dadd (Finite a) (Finite b) = Finite (a + b)"
| "dadd _ _ = NonFinite"

fun dmul :: "double \<Rightarrow> double \<Rightarrow> double" where
  "dmul (Finite a) (Finite b) = Finite (a * b)"
| "dmul _ _ = NonFinite"

definition ddiv :: "real \<Rightarrow> real \<Rightarrow> double" where
  "ddiv a b = (if b = 0 then NonFinite else Finite (a / b))"

subsection \<open>Affine transforms\<close>

text \<open>
  Eigen is an external library. \<^verbatim>\<open>Eigen::Affine2d\<close> is modelled by its linear part and
  its translation, \<^verbatim>\<open>Eigen::Translation2d\<close> by its vector, and the operations by what
  Eigen computes: a scaling is diagonal, a rotation by \<open>theta\<close> is the usual matrix,
  \<open>translation * transform\<close> adds the vector to the translation, and
  \<open>transform * translation\<close> adds the image of the vector under the linear part.
\<close>

record Affine2d =
  a11 :: double
  a12 :: double
  a21 :: double
  a22 :: double
  t1 :: double
  t2 :: double

definition Scaling :: "double \<Rightarrow> double \<Rightarrow> Affine2d" where
  "Scaling sx sy =
     \<lparr>a11 = sx, a12 = Finite 0, a21 = Finite 0, a22 = sy, t1 = Finite 0, t2 = Finite 0\<rparr>"

definition Rotation2Dd :: "real \<Rightarrow> Affine2d" where
  "Rotation2Dd theta =
     \<lparr>a11 = Finite (cos theta), a12 = Finite (- sin theta),
      a21 = Finite (sin theta), a22 = Finite (cos theta), t1 = Finite 0, t2 = Finite 0\<rparr>"

definition Identity :: Affine2d where
  "Identity =
     \<lparr>a11 = Finite 1, a12 = Finite 0, a21 = Finite 0, a22 = Finite 1,
      t1 = Finite 0, t2 = Finite 0\<rparr>"

definition Translation2d :: "real \<Rightarrow> real \<Rightarrow> Vec2" where
  "Translation2d x y = (x, y)"

definition translationInverse :: "Vec2 \<Rightarrow> Vec2" where
  "translationInverse t = (- fst t, - snd t)"

definition translationTimesAffine :: "Vec2 \<Rightarrow> Affine2d \<Rightarrow> Affine2d" where
  "translationTimesAffine t xf =
     xf\<lparr>t1 := dadd (t1 xf) (Finite (fst t)), t2 := dadd (t2 xf) (Finite (snd t))\<rparr>"

definition affineTimesTranslation :: "Affine2d \<Rightarrow> Vec2 \<Rightarrow> Affine2d" where
  "affineTimesTranslation xf t =
     xf\<lparr>t1 := dadd (t1 xf)
                (dadd (dmul (a11 xf) (Finite (fst t))) (dmul (a12 xf) (Finite (snd t)))),
        t2 := dadd (t2 xf)
                (dadd (dmul (a21 xf) (Finite (fst t))) (dmul (a22 xf) (Finite (snd t))))\<rparr>"

subsection \<open>Rounding\<close>

text \<open>
  An arithmetic operation on doubles returns its exact result rounded to a double. The
  operations above are exact: they fix which operands meet in which operation, and which
  values are not finite. Where the rounding decides a property (the image of the pivot),
  the operations below are used; they take the rounding as an argument \<open>rnd\<close>, which is
  applied to the exact result of every addition and multiplication. With the identity for
  \<open>rnd\<close> they are the operations above. The negation in \<open>translationInverse\<close> is exact.
\<close>

fun daddR :: "(real \<Rightarrow> real) \<Rightarrow> double \<Rightarrow> double \<Rightarrow> double" where
  "daddR rnd (Finite a) (Finite b) = Finite (rnd (a + b))"
| "daddR rnd _ _ = NonFinite"

fun dmulR :: "(real \<Rightarrow> real) \<Rightarrow> double \<Rightarrow> double \<Rightarrow> double" where
  "dmulR rnd (Finite a) (Finite b) = Finite (rnd (a * b))"
| "dmulR rnd _ _ = NonFinite"

definition translationTimesAffineR :: "(real \<Rightarrow> real) \<Rightarrow> Vec2 \<Rightarrow> Affine2d \<Rightarrow> Affine2d" where
  "translationTimesAffineR rnd t xf =
     xf\<lparr>t1 := daddR rnd (t1 xf) (Finite (fst t)), t2 := daddR rnd (t2 xf) (Finite (snd t))\<rparr>"

definition affineTimesTranslationR :: "(real \<Rightarrow> real) \<Rightarrow> Affine2d \<Rightarrow> Vec2 \<Rightarrow> Affine2d" where
  "affineTimesTranslationR rnd xf t =
     xf\<lparr>t1 := daddR rnd (t1 xf)
                (daddR rnd (dmulR rnd (a11 xf) (Finite (fst t)))
                           (dmulR rnd (a12 xf) (Finite (snd t)))),
        t2 := daddR rnd (t2 xf)
                (daddR rnd (dmulR rnd (a21 xf) (Finite (fst t)))
                           (dmulR rnd (a22 xf) (Finite (snd t))))\<rparr>"

text \<open>
  The image of a point under an affine transform, as Eigen computes \<^verbatim>\<open>xf * p\<close>: the
  linear part times the point, plus the translation.
\<close>

definition applyAffineR :: "(real \<Rightarrow> real) \<Rightarrow> Affine2d \<Rightarrow> Vec2 \<Rightarrow> double \<times> double" where
  "applyAffineR rnd xf p =
     (daddR rnd (daddR rnd (dmulR rnd (a11 xf) (Finite (fst p)))
                           (dmulR rnd (a12 xf) (Finite (snd p)))) (t1 xf),
      daddR rnd (daddR rnd (dmulR rnd (a21 xf) (Finite (fst p)))
                           (dmulR rnd (a22 xf) (Finite (snd p)))) (t2 xf))"

text \<open>
  \<^verbatim>\<open>std::atan2\<close>, by its definition on the reals (the result lies in \<open>(-pi, pi]\<close>, and
  is \<open>0\<close> at the origin).
\<close>

definition atan2 :: "real \<Rightarrow> real \<Rightarrow> real" where
  "atan2 y x =
     (if 0 < x then arctan (y / x)
      else if x < 0 \<and> 0 \<le> y then arctan (y / x) + pi
      else if x < 0 \<and> y < 0 then arctan (y / x) - pi
      else if 0 < y then pi / 2
      else if y < 0 then - pi / 2
      else 0)"

subsection \<open>Collaborators of the drag protocol\<close>

text \<open>
  \<open>beginTransform\<close> queries the cells and the complex through functions that are not part of
  the sources; they are parameters of the model: whether an inbetween cell exists at a
  time (\<^verbatim>\<open>InbetweenCell::exists\<close>), the key cells that \<^verbatim>\<open>VAC::keyframe_\<close> returns for
  a set of inbetween cells, the outline bounding box of a cell at a time, the
  default-constructed bounding box and \<^verbatim>\<open>BoundingBox::unite\<close>. The type \<open>'t\<close> stands for
  \<^verbatim>\<open>Time\<close>.
\<close>

record 't Collaborators =
  cellExists :: "Cell \<Rightarrow> 't \<Rightarrow> bool"
  keyframe' :: "CellSet \<Rightarrow> 't \<Rightarrow> CellSet"
  outlineBoundingBox :: "Cell \<Rightarrow> 't \<Rightarrow> BoundingBox"
  defaultBoundingBox :: BoundingBox
  unite :: "BoundingBox \<Rightarrow> BoundingBox \<Rightarrow> BoundingBox"

text \<open>
  Modelled from the spec: \<^verbatim>\<open>Algorithms::closure\<close> (Algorithms.h) is not part of the
  sources. The spec defines the topological closure of a cell set as the smallest
  superset that contains, with every member, the cells the member structurally depends
  on: with an edge its incident vertices.
\<close>

fun closureOfCell :: "Cell \<Rightarrow> Cell list" where
  "closureOfCell (Cell i k bs) = Cell i k bs # concat (map closureOfCell bs)"

definition Algorithms_closure :: "CellSet \<Rightarrow> CellSet" where
  "Algorithms_closure cells = remdups (concat (map closureOfCell cells))"

text \<open>
  Modelled from the spec: the typed cell sets \<^verbatim>\<open>KeyVertexSet\<close> and \<^verbatim>\<open>KeyEdgeSet\<close>
  (CellList.h) are not part of the sources. Built from a cell set they keep, in the
  spec's words, the subset of vertex cells and of edge cells.
\<close>

definition KeyVertexSet :: "CellSet \<Rightarrow> CellSet" where
  "KeyVertexSet cells = filter toKeyVertex cells"

definition KeyEdgeSet :: "CellSet \<Rightarrow> CellSet" where
  "KeyEdgeSet cells = filter toKeyEdge cells"

text \<open>The calls that the tool makes on key vertices and key edges, in the order made.\<close>

datatype Call =
    KeyEdge_prepareAffineTransform Cell
  | KeyVertex_prepareAffineTransform Cell
  | KeyEdge_performAffineTransform Cell Affine2d
  | KeyVertex_performAffineTransform Cell Affine2d
  | KeyVertex_correctEdgesGeometry Cell

subsection \<open>beginTransform\<close>

text \<open>One round of the loop that sorts the cells into those to keyframe and the others;
  the state of the loop is the pair \<open>(cellsNotToKeyframe, cellsToKeyframe)\<close>.\<close>

definition sortCell ::
  "'t Collaborators \<Rightarrow> 't \<Rightarrow> CellSet \<times> CellSet \<Rightarrow> Cell \<Rightarrow> CellSet \<times> CellSet" where
  "sortCell env time acc c =
     (case acc of (cellsNotToKeyframe, cellsToKeyframe) \<Rightarrow>
        if toInbetweenCell c then
          (if cellExists env c time
           then (cellsNotToKeyframe, insertCell cellsToKeyframe c)
           else (insertCell cellsNotToKeyframe c, cellsToKeyframe))
        else (insertCell cellsNotToKeyframe c, cellsToKeyframe))"

definition cellsNotToKeyframe :: "'t Collaborators \<Rightarrow> CellSet \<Rightarrow> 't \<Rightarrow> CellSet" where
  "cellsNotToKeyframe env cells time = fst (foldl (sortCell env time) ([], []) cells)"

definition cellsToKeyframe :: "'t Collaborators \<Rightarrow> CellSet \<Rightarrow> 't \<Rightarrow> CellSet" where
  "cellsToKeyframe env cells time = snd (foldl (sortCell env time) ([], []) cells)"

text \<open>The cells to transform before the closure: the cells not to keyframe, and the
  key cells that keyframing returns.\<close>

definition cellsToTransform :: "'t Collaborators \<Rightarrow> CellSet \<Rightarrow> 't \<Rightarrow> CellSet" where
  "cellsToTransform env cells time =
     foldl insertCell (cellsNotToKeyframe env cells time)
       (keyframe' env (cellsToKeyframe env cells time) time)"

text \<open>The outline bounding box of the cells at a time.\<close>

definition outlineBox :: "'t Collaborators \<Rightarrow> CellSet \<Rightarrow> 't \<Rightarrow> BoundingBox" where
  "outlineBox env cells time =
     foldl (\<lambda>obb c. unite env obb (outlineBoundingBox env c time)) (defaultBoundingBox env) cells"

definition beginTransform ::
  "'t Collaborators \<Rightarrow> TransformTool \<Rightarrow> CellSet \<Rightarrow> real \<Rightarrow> real \<Rightarrow> 't
     \<Rightarrow> TransformTool \<times> Call list" where
  "beginTransform env st cells x0 y0 time =
     (let st = st\<lparr>draggedVertices' := [], draggedEdges' := []\<rparr> in
      if hovered st = None' \<or> cells = [] then (st, [])
      else
        (let closed = Algorithms_closure (cellsToTransform env cells time);
             st = st\<lparr>draggedVertices' := KeyVertexSet closed, draggedEdges' := KeyEdgeSet closed\<rparr>;
             calls = foldl (\<lambda>log e. log @ [KeyEdge_prepareAffineTransform e]) [] (draggedEdges' st);
             calls = foldl (\<lambda>log v. log @ [KeyVertex_prepareAffineTransform v]) calls
                       (draggedVertices' st);
             obb = outlineBox env cells time;
             obbWidgetPos = widgetPos' (hovered st) obb;
             obbOppositeWidgetPos = widgetOppositePos' (hovered st) obb
         in (st\<lparr>x0' := x0, y0' := y0,
                dx' := x0 - fst obbWidgetPos, dy' := y0 - snd obbWidgetPos,
                xPivot' := fst obbOppositeWidgetPos, yPivot' := snd obbOppositeWidgetPos\<rparr>,
             calls)))"

subsection \<open>continueTransform\<close>

text \<open>
  The result is \<open>None\<close> when the function returns without calling anything, and
  otherwise the transform it built and the calls it made. The source performs the
  divisions whatever the denominators are: the quotients are \<open>ddiv\<close>.
\<close>

definition continueTransform ::
  "TransformTool \<Rightarrow> CellSet \<Rightarrow> real \<Rightarrow> real \<Rightarrow> (Affine2d \<times> Call list) option" where
  "continueTransform st cells x y =
     (if hovered st = None' \<or> cells = [] then None
      else
        (case
           (if hovered st = TopLeftScale \<or> hovered st = TopRightScale
               \<or> hovered st = BottomRightScale \<or> hovered st = BottomLeftScale
            then Some (Scaling (ddiv (x - dx' st - xPivot' st) (x0' st - dx' st - xPivot' st))
                               (ddiv (y - dy' st - yPivot' st) (y0' st - dy' st - yPivot' st)))
            else if hovered st = TopScale \<or> hovered st = BottomScale
            then Some (Scaling (Finite 1.0)
                               (ddiv (y - dy' st - yPivot' st) (y0' st - dy' st - yPivot' st)))
            else if hovered st = RightScale \<or> hovered st = LeftScale
            then Some (Scaling (ddiv (x - dx' st - xPivot' st) (x0' st - dx' st - xPivot' st))
                               (Finite 1.0))
            else if hovered st = TopLeftRotate \<or> hovered st = TopRightRotate
               \<or> hovered st = BottomRightRotate \<or> hovered st = BottomLeftRotate
            then (let theta0 = atan2 (y0' st - yPivot' st) (x0' st - xPivot' st);
                      theta = atan2 (y - yPivot' st) (x - xPivot' st);
                      dTheta = theta - theta0
                  in Some (Rotation2Dd dTheta))
            else None)
         of
           None \<Rightarrow> None
         | Some xf \<Rightarrow>
             (let pivot = Translation2d (xPivot' st) (yPivot' st);
                  xf = affineTimesTranslation (translationTimesAffine pivot xf)
                         (translationInverse pivot);
                  calls = foldl (\<lambda>log e. log @ [KeyEdge_performAffineTransform e xf]) []
                            (draggedEdges' st);
                  calls = foldl (\<lambda>log v. log @ [KeyVertex_performAffineTransform v xf]) calls
                            (draggedVertices' st);
                  calls = foldl (\<lambda>log v. log @ [KeyVertex_correctEdgesGeometry v]) calls
                            (draggedVertices' st)
              in Some (xf, calls))))"

definition endTransform :: "TransformTool \<Rightarrow> CellSet \<Rightarrow> TransformTool" where
  "endTransform st cells = st"

subsection \<open>Notions used in the statements\<close>

text \<open>
  The transform about the pivot of a state: \<open>pivot * s * pivot.inverse()\<close>, as
  \<open>continueTransform\<close> composes it; the calls that \<open>continueTransform\<close> makes for a
  transform; the two scale ratios; and the widget categories.
\<close>

definition aboutPivot :: "TransformTool \<Rightarrow> Affine2d \<Rightarrow> Affine2d" where
  "aboutPivot st s =
     affineTimesTranslation (translationTimesAffine (Translation2d (xPivot' st) (yPivot' st)) s)
       (translationInverse (Translation2d (xPivot' st) (yPivot' st)))"

definition transformCalls :: "TransformTool \<Rightarrow> Affine2d \<Rightarrow> Call list" where
  "transformCalls st xf =
     map (\<lambda>e. KeyEdge_performAffineTransform e xf) (draggedEdges' st)
     @ map (\<lambda>v. KeyVertex_performAffineTransform v xf) (draggedVertices' st)
     @ map KeyVertex_correctEdgesGeometry (draggedVertices' st)"

definition xRatio :: "TransformTool \<Rightarrow> real \<Rightarrow> double" where
  "xRatio st x = ddiv (x - dx' st - xPivot' st) (x0' st - dx' st - xPivot' st)"

definition yRatio :: "TransformTool \<Rightarrow> real \<Rightarrow> double" where
  "yRatio st y = ddiv (y - dy' st - yPivot' st) (y0' st - dy' st - yPivot' st)"

definition isCornerScale :: "WidgetId \<Rightarrow> bool" where
  "isCornerScale w = (w = TopLeftScale \<or> w = TopRightScale \<or> w = BottomRightScale \<or> w = BottomLeftScale)"

definition isCornerRotate :: "WidgetId \<Rightarrow> bool" where
  "isCornerRotate w = (w = TopLeftRotate \<or> w = TopRightRotate \<or> w = BottomRightRotate \<or> w = BottomLeftRotate)"

text \<open>
  The composition \<open>pivot * s * pivot.inverse()\<close> with rounded operations, and a transform
  with a finite linear part and no translation: every scaling with finite factors and
  every rotation matrix is one.
\<close>

definition aboutPivotR :: "(real \<Rightarrow> real) \<Rightarrow> TransformTool \<Rightarrow> Affine2d \<Rightarrow> Affine2d" where
  "aboutPivotR rnd st s =
     affineTimesTranslationR rnd
       (translationTimesAffineR rnd (Translation2d (xPivot' st) (yPivot' st)) s)
       (translationInverse (Translation2d (xPivot' st) (yPivot' st)))"

definition linearTransform :: "real \<Rightarrow> real \<Rightarrow> real \<Rightarrow> real \<Rightarrow> Affine2d" where
  "linearTransform a b c d =
     \<lparr>a11 = Finite a, a12 = Finite b, a21 = Finite c, a22 = Finite d,
      t1 = Finite 0, t2 = Finite 0\<rparr>"

text \<open>
  One coordinate of the image of the pivot \<open>(px, py)\<close> under the composition about the
  pivot of a transform whose row for that coordinate is \<open>(a, b)\<close>; \<open>p\<close> is that coordinate
  of the pivot. The inner sum is the translation of the composition, the outer one the
  application.
\<close>

definition roundedCoordinate ::
  "(real \<Rightarrow> real) \<Rightarrow> real \<Rightarrow> real \<Rightarrow> real \<Rightarrow> real \<Rightarrow> real \<Rightarrow> real" where
  "roundedCoordinate rnd a b px py p =
     rnd (rnd (rnd (a * px) + rnd (b * py))
          + rnd (rnd (0 + p) + rnd (rnd (a * (- px)) + rnd (b * (- py)))))"

text \<open>The exact results of the nine operations of \<open>roundedCoordinate\<close>, that are rounded.\<close>

definition coordinateOperations ::
  "(real \<Rightarrow> real) \<Rightarrow> real \<Rightarrow> real \<Rightarrow> real \<Rightarrow> real \<Rightarrow> real \<Rightarrow> real list" where
  "coordinateOperations rnd a b px py p =
     [0 + p, a * (- px), b * (- py),
      rnd (a * (- px)) + rnd (b * (- py)),
      rnd (0 + p) + rnd (rnd (a * (- px)) + rnd (b * (- py))),
      a * px, b * py,
      rnd (a * px) + rnd (b * py),
      rnd (rnd (a * px) + rnd (b * py))
        + rnd (rnd (0 + p) + rnd (rnd (a * (- px)) + rnd (b * (- py))))]"

definition pivotImageOperations ::
  "(real \<Rightarrow> real) \<Rightarrow> TransformTool \<Rightarrow> real \<Rightarrow> real \<Rightarrow> real \<Rightarrow> real \<Rightarrow> real list" where
  "pivotImageOperations rnd st a b c d =
     coordinateOperations rnd a b (xPivot' st) (yPivot' st) (xPivot' st)
     @ coordinateOperations rnd c d (xPivot' st) (yPivot' st) (yPivot' st)"

text \<open>The widgets whose transform divides by the x denominator, and by the y denominator.\<close>

definition usesXRatio :: "WidgetId \<Rightarrow> bool" where
  "usesXRatio w = (isCornerScale w \<or> w = RightScale \<or> w = LeftScale)"

definition usesYRatio :: "WidgetId \<Rightarrow> bool" where
  "usesYRatio w = (isCornerScale w \<or> w = TopScale \<or> w = BottomScale)"

definition isPureScaleOrRotation :: "Affine2d \<Rightarrow> bool" where
  "isPureScaleOrRotation s = ((\<exists>sx sy. s = Scaling sx sy) \<or> (\<exists>theta. s = Rotation2Dd theta))"

text \<open>
  The quantities that \<open>computeArrow'\<close> computes on the way: the on-screen size, the
  center of the circle, the radii and the angles.
\<close>

definition arrowSize :: "real \<Rightarrow> real" where
  "arrowSize zoom = rotateWidgetSize / zoom"

definition arrowCenter :: "WidgetId \<Rightarrow> BoundingBox \<Rightarrow> real \<Rightarrow> Vec2" where
  "arrowCenter ident bb zoom =
     p_angle (widgetPos' ident bb) (- rotateWidgetCircleCenter * arrowSize zoom)
       (rotateWidgetMidAngle' ident)"

definition rCenterline :: "real \<Rightarrow> real" where
  "rCenterline zoom = rotateWidgetCircleRadius * arrowSize zoom"

definition rMaxHead :: "real \<Rightarrow> real" where
  "rMaxHead zoom = rCenterline zoom + rotateWidgetHeadHalfWidth * arrowSize zoom"

definition rMinHead :: "real \<Rightarrow> real" where
  "rMinHead zoom = rCenterline zoom - rotateWidgetHeadHalfWidth * arrowSize zoom"

definition rMaxBody :: "real \<Rightarrow> real" where
  "rMaxBody zoom = rCenterline zoom + rotateWidgetBodyHalfWidth * arrowSize zoom"

definition rMinBody :: "real \<Rightarrow> real" where
  "rMinBody zoom = rCenterline zoom - rotateWidgetBodyHalfWidth * arrowSize zoom"

definition startAngle :: "WidgetId \<Rightarrow> real" where
  "startAngle ident = rotateWidgetMidAngle' ident - 0.5 * rotateWidgetAngleRange"

definition endAngle :: "WidgetId \<Rightarrow> real" where
  "endAngle ident = rotateWidgetMidAngle' ident + 0.5 * rotateWidgetAngleRange"

definition deltaAngle :: real where
  "deltaAngle = rotateWidgetAngleRange / (real rotateWidgetNumSamples - 1)"

text \<open>The three points of the first and of the second arrowhead, as the source computes them.\<close>

definition firstArrowHead :: "WidgetId \<Rightarrow> BoundingBox \<Rightarrow> real \<Rightarrow> Vec2 list" where
  "firstArrowHead ident bb zoom =
     [p_unit (arrowCenter ident bb zoom) (rMaxHead zoom) (u' (startAngle ident)),
      vsub (p_unit (arrowCenter ident bb zoom) (rCenterline zoom) (u' (startAngle ident)))
        (smul (rotateWidgetHeadHalfWidth * arrowSize zoom)
           (- snd (u' (startAngle ident)), fst (u' (startAngle ident)))),
      p_unit (arrowCenter ident bb zoom) (rMinHead zoom) (u' (startAngle ident))]"

definition secondArrowHead :: "WidgetId \<Rightarrow> BoundingBox \<Rightarrow> real \<Rightarrow> Vec2 list" where
  "secondArrowHead ident bb zoom =
     [p_unit (arrowCenter ident bb zoom) (rMinHead zoom) (u' (endAngle ident)),
      vadd (p_unit (arrowCenter ident bb zoom) (rCenterline zoom) (u' (endAngle ident)))
        (smul (rotateWidgetHeadHalfWidth * arrowSize zoom)
           (- snd (u' (endAngle ident)), fst (u' (endAngle ident)))),
      p_unit (arrowCenter ident bb zoom) (rMaxHead zoom) (u' (endAngle ident))]"

subsection \<open>An example scene\<close>

text \<open>
  A key edge between two key vertices, an inbetween edge, a complex whose keyframing
  returns one more key edge, and cells whose outline bounding box is the square from
  \<open>(0, 0)\<close> to \<open>(10, 10)\<close>. The theorems below are instantiated on it.
\<close>

definition exampleVertexA :: Cell where
  "exampleVertexA = Cell 1 KeyVertexKind []"

definition exampleVertexB :: Cell where
  "exampleVertexB = Cell 2 KeyVertexKind []"

definition exampleEdge :: Cell where
  "exampleEdge = Cell 3 KeyEdgeKind [exampleVertexA, exampleVertexB]"

definition exampleInbetweenEdge :: Cell where
  "exampleInbetweenEdge = Cell 4 InbetweenEdgeKind [exampleEdge]"

definition exampleKeyframedEdge :: Cell where
  "exampleKeyframedEdge = Cell 5 KeyEdgeKind [Cell 6 KeyVertexKind [], Cell 7 KeyVertexKind []]"

definition exampleUnite :: "BoundingBox \<Rightarrow> BoundingBox \<Rightarrow> BoundingBox" where
  "exampleUnite a b =
     \<lparr>xMin = min (xMin a) (xMin b), xMax = max (xMax a) (xMax b),
      yMin = min (yMin a) (yMin b), yMax = max (yMax a) (yMax b)\<rparr>"

definition exampleScene :: "nat Collaborators" where
  "exampleScene =
     \<lparr>cellExists = (\<lambda>c t. True),
      keyframe' = (\<lambda>cs t. if cs = [] then [] else [exampleKeyframedEdge]),
      outlineBoundingBox = (\<lambda>c t. \<lparr>xMin = 0, xMax = 10, yMin = 0, yMax = 10\<rparr>),
      defaultBoundingBox = \<lparr>xMin = 0, xMax = 0, yMin = 0, yMax = 0\<rparr>,
      unite = exampleUnite\<rparr>"

text \<open>The same scene with cells whose outline bounding box has no width.\<close>

definition exampleFlatScene :: "nat Collaborators" where
  "exampleFlatScene =
     exampleScene\<lparr>outlineBoundingBox :=
       (\<lambda>c t. \<lparr>xMin = 0, xMax = 0, yMin = 0, yMax = 10\<rparr>)\<rparr>"

text \<open>A coarse rounding, to the nearest integer.\<close>

definition exampleRounding :: "real \<Rightarrow> real" where
  "exampleRounding x = of_int (round x)"

definition exampleTool :: "WidgetId \<Rightarrow> TransformTool" where
  "exampleTool w = (newTransformTool 0 0 0 0 0 0)\<lparr>hovered' := w\<rparr>"

subsection \<open>Hover state and pick ids\<close>

lemma enumValue_range:
  "w \<noteq> None' \<Longrightarrow> MIN_WIDGET_ID \<le>s enumValue w \<and> enumValue w \<le>s MAX_WIDGET_ID"
  by (cases w) (simp_all add: MIN_WIDGET_ID_def MAX_WIDGET_ID_def word_sle_eq)

lemma static_cast_enumValue: "static_cast_WidgetId (enumValue w) = w"
  by (cases w) (simp_all add: static_cast_WidgetId_def)

lemma in_range_cases:
  assumes "MIN_WIDGET_ID \<le>s w" and "w \<le>s MAX_WIDGET_ID"
  shows "w \<in> {1, 2, 3, 4, 5, 6, 7, 8, 9, 10, 11, 12}"
proof -
  from assms have "1 \<le> sint w" and "sint w \<le> 12"
    by (simp_all add: MIN_WIDGET_ID_def MAX_WIDGET_ID_def word_sle_eq)
  then have "sint w \<in> {1, 2, 3, 4, 5, 6, 7, 8, 9, 10, 11, 12}"
    by (simp; arith)
  moreover have "w = word_of_int (sint w)"
    by simp
  ultimately show ?thesis
    by (metis (no_types, lifting) insert_iff of_int_numeral of_int_1 empty_iff)
qed

lemma enumValue_static_cast:
  "MIN_WIDGET_ID \<le>s w \<Longrightarrow> w \<le>s MAX_WIDGET_ID \<Longrightarrow> enumValue (static_cast_WidgetId w) = w"
  using in_range_cases[of w] by (auto simp: static_cast_WidgetId_def)

lemma pick_id_roundtrip:
  "w \<noteq> None' \<Longrightarrow> hovered (setHoveredObject st (glPickColor' st w)) = w"
  using enumValue_range[of w]
  by (simp add: setHoveredObject_def glPickColor'_def Let_def hovered_def static_cast_enumValue)

lemma setHoveredObject_in_range:
  assumes "MIN_WIDGET_ID \<le>s pickId - idOffset' st + MIN_WIDGET_ID"
    and "pickId - idOffset' st + MIN_WIDGET_ID \<le>s MAX_WIDGET_ID"
  shows "enumValue (hovered (setHoveredObject st pickId)) = pickId - idOffset' st + MIN_WIDGET_ID"
  using assms enumValue_static_cast[OF assms]
  by (simp add: setHoveredObject_def Let_def hovered_def)

lemma setHoveredObject_out_of_range:
  assumes "\<not> (MIN_WIDGET_ID \<le>s pickId - idOffset' st + MIN_WIDGET_ID
             \<and> pickId - idOffset' st + MIN_WIDGET_ID \<le>s MAX_WIDGET_ID)"
  shows "setHoveredObject st pickId = setNoHoveredObject st"
  using assms by (auto simp: setHoveredObject_def Let_def)

text \<open>
  Without overflow the 32-bit value of \<^verbatim>\<open>id - idOffset_ + MIN_WIDGET_ID\<close> is the
  integer \<open>id - idOffset + 1\<close>.
\<close>

lemma widgetId_no_overflow:
  assumes "- (2 ^ 31) \<le> sint pickId - sint off + 1" and "sint pickId - sint off + 1 < 2 ^ 31"
  shows "sint (pickId - off + MIN_WIDGET_ID :: int32) = sint pickId - sint off + 1"
proof -
  let ?k = "sint pickId - sint off + 1"
  have "pickId - off + MIN_WIDGET_ID = (word_of_int ?k :: int32)"
    by (simp add: MIN_WIDGET_ID_def)
  then have "sint (pickId - off + MIN_WIDGET_ID) = signed_take_bit 31 ?k"
    by (simp only: sint_sbintrunc') simp
  also have "\<dots> = ?k"
    using assms by (intro signed_take_bit_int_eq_self) simp_all
  finally show ?thesis .
qed

text \<open>
  Claim C6. For every pick id, \<open>setHoveredObject\<close> changes nothing but the hovered
  widget. With \<open>w = pickId - idOffset + MIN_WIDGET_ID\<close> (in 32-bit arithmetic): when
  \<open>w\<close> lies between \<open>MIN_WIDGET_ID\<close> and \<open>MAX_WIDGET_ID\<close> the hovered widget becomes the
  one whose numeric value is \<open>w\<close>, and otherwise it becomes \<open>None'\<close>. The pick id that
  \<open>glPickColor'\<close> reports for a widget other than \<open>None'\<close> maps back to that widget.
  \<open>setNoHoveredObject\<close> always leaves \<open>None'\<close> hovered, and repeating a clear or an
  out-of-range pick id changes nothing more.
\<close>

theorem setHoveredObject_pick_id_mapping:
  fixes st :: TransformTool and pickId :: int32 and wid :: WidgetId
  defines "w \<equiv> pickId - idOffset' st + MIN_WIDGET_ID"
  shows "setHoveredObject st pickId = st\<lparr>hovered' := hovered (setHoveredObject st pickId)\<rparr>
    \<and> (MIN_WIDGET_ID \<le>s w \<and> w \<le>s MAX_WIDGET_ID
          \<longrightarrow> enumValue (hovered (setHoveredObject st pickId)) = w
            \<and> hovered (setHoveredObject st pickId) \<noteq> None')
    \<and> (\<not> (MIN_WIDGET_ID \<le>s w \<and> w \<le>s MAX_WIDGET_ID)
          \<longrightarrow> hovered (setHoveredObject st pickId) = None'
            \<and> setHoveredObject (setHoveredObject st pickId) pickId = setHoveredObject st pickId)
    \<and> (wid \<noteq> None' \<longrightarrow> hovered (setHoveredObject st (glPickColor' st wid)) = wid)
    \<and> hovered (setNoHoveredObject st) = None'
    \<and> setNoHoveredObject (setNoHoveredObject st) = setNoHoveredObject st"
proof -
  have only_hover: "setHoveredObject st pickId = st\<lparr>hovered' := hovered (setHoveredObject st pickId)\<rparr>"
    by (simp add: setHoveredObject_def setNoHoveredObject_def hovered_def Let_def)
  have inside: "enumValue (hovered (setHoveredObject st pickId)) = w
      \<and> hovered (setHoveredObject st pickId) \<noteq> None'"
    if r: "MIN_WIDGET_ID \<le>s w \<and> w \<le>s MAX_WIDGET_ID"
  proof -
    have v: "enumValue (hovered (setHoveredObject st pickId)) = w"
      using r setHoveredObject_in_range[of pickId st] by (simp add: w_def)
    have "w \<noteq> 0"
      using r by (auto simp: MIN_WIDGET_ID_def word_sle_eq)
    with v have "hovered (setHoveredObject st pickId) \<noteq> None'"
      by auto
    with v show ?thesis by simp
  qed
  have outside: "hovered (setHoveredObject st pickId) = None'
      \<and> setHoveredObject (setHoveredObject st pickId) pickId = setHoveredObject st pickId"
    if r: "\<not> (MIN_WIDGET_ID \<le>s w \<and> w \<le>s MAX_WIDGET_ID)"
  proof -
    have e: "setHoveredObject st pickId = setNoHoveredObject st"
      using r setHoveredObject_out_of_range[of pickId st] by (simp add: w_def)
    have "setHoveredObject (setNoHoveredObject st) pickId = setNoHoveredObject (setNoHoveredObject st)"
      using r setHoveredObject_out_of_range[of pickId "setNoHoveredObject st"]
      by (simp add: w_def setNoHoveredObject_def)
    with e show ?thesis
      by (simp add: setNoHoveredObject_def hovered_def)
  qed
  have clear: "hovered (setNoHoveredObject st) = None'"
    "setNoHoveredObject (setNoHoveredObject st) = setNoHoveredObject st"
    by (simp_all add: setNoHoveredObject_def hovered_def)
  show ?thesis
    using only_hover inside outside clear pick_id_roundtrip[of wid st] by blast
qed

theorem setHoveredObject_pick_id_mapping_witness:
  "hovered (setHoveredObject (setIdOffset (newTransformTool 0 0 0 0 0 0) 100) 104) = TopScale
   \<and> hovered (setHoveredObject (setIdOffset (newTransformTool 0 0 0 0 0 0) 100) 99) = None'
   \<and> hovered (setHoveredObject (setIdOffset (newTransformTool 0 0 0 0 0 0) 100) 113) = None'
   \<and> glPickColor' (setIdOffset (newTransformTool 0 0 0 0 0 0) 100) TopLeftRotate = 108
   \<and> hovered (setHoveredObject (setIdOffset (newTransformTool 0 0 0 0 0 0) 100) 108) = TopLeftRotate"
proof -
  let ?st = "setIdOffset (newTransformTool 0 0 0 0 0 0) 100"
  have off: "idOffset' ?st = 100"
    by (simp add: setIdOffset_def newTransformTool_def)
  have "enumValue (hovered (setHoveredObject ?st 104)) = 5"
    using setHoveredObject_pick_id_mapping [of ?st 104 TopLeftRotate]
    by (simp add: off MIN_WIDGET_ID_def MAX_WIDGET_ID_def word_sle_eq)
  then have "static_cast_WidgetId (enumValue (hovered (setHoveredObject ?st 104))) = static_cast_WidgetId 5"
    by simp
  then have a: "hovered (setHoveredObject ?st 104) = TopScale"
    by (simp only: static_cast_enumValue) (simp add: static_cast_WidgetId_def)
  have b: "hovered (setHoveredObject ?st 99) = None'"
    using setHoveredObject_pick_id_mapping [of ?st 99 TopLeftRotate]
    by (simp add: off MIN_WIDGET_ID_def MAX_WIDGET_ID_def word_sle_eq)
  have c: "hovered (setHoveredObject ?st 113) = None'"
    using setHoveredObject_pick_id_mapping [of ?st 113 TopLeftRotate]
    by (simp add: off MIN_WIDGET_ID_def MAX_WIDGET_ID_def word_sle_eq)
  have d: "glPickColor' ?st TopLeftRotate = 108"
    by (simp add: glPickColor'_def off MIN_WIDGET_ID_def)
  have "hovered (setHoveredObject ?st (glPickColor' ?st TopLeftRotate)) = TopLeftRotate"
    using setHoveredObject_pick_id_mapping [of ?st 0 TopLeftRotate] by simp
  with d have e: "hovered (setHoveredObject ?st 108) = TopLeftRotate"
    by simp
  from a b c d e show ?thesis by simp
qed

subsection \<open>What continueTransform computes\<close>

lemma foldl_log: "foldl (\<lambda>log e. log @ [f e]) acc xs = acc @ map f xs"
  by (induction xs arbitrary: acc) simp_all

lemma continueTransform_trivial:
  "hovered st = None' \<or> cells = [] \<Longrightarrow> continueTransform st cells x y = None"
  by (simp add: continueTransform_def)

lemma continueTransform_cornerScale:
  assumes "isCornerScale (hovered st)" and "cells \<noteq> []"
  shows "continueTransform st cells x y =
           Some (aboutPivot st (Scaling (xRatio st x) (yRatio st y)),
                 transformCalls st (aboutPivot st (Scaling (xRatio st x) (yRatio st y))))"
  using assms
  by (auto simp: continueTransform_def isCornerScale_def aboutPivot_def transformCalls_def
      xRatio_def yRatio_def foldl_log Let_def)

lemma continueTransform_verticalScale:
  assumes "hovered st = TopScale \<or> hovered st = BottomScale" and "cells \<noteq> []"
  shows "continueTransform st cells x y =
           Some (aboutPivot st (Scaling (Finite 1) (yRatio st y)),
                 transformCalls st (aboutPivot st (Scaling (Finite 1) (yRatio st y))))"
  using assms
  by (auto simp: continueTransform_def aboutPivot_def transformCalls_def
      xRatio_def yRatio_def foldl_log Let_def)

lemma continueTransform_horizontalScale:
  assumes "hovered st = RightScale \<or> hovered st = LeftScale" and "cells \<noteq> []"
  shows "continueTransform st cells x y =
           Some (aboutPivot st (Scaling (xRatio st x) (Finite 1)),
                 transformCalls st (aboutPivot st (Scaling (xRatio st x) (Finite 1))))"
  using assms
  by (auto simp: continueTransform_def aboutPivot_def transformCalls_def
      xRatio_def yRatio_def foldl_log Let_def)

lemma continueTransform_rotate:
  assumes "isCornerRotate (hovered st)" and "cells \<noteq> []"
  shows "continueTransform st cells x y =
           Some (aboutPivot st (Rotation2Dd (atan2 (y - yPivot' st) (x - xPivot' st)
                                   - atan2 (y0' st - yPivot' st) (x0' st - xPivot' st))),
                 transformCalls st (aboutPivot st (Rotation2Dd (atan2 (y - yPivot' st) (x - xPivot' st)
                                   - atan2 (y0' st - yPivot' st) (x0' st - xPivot' st)))))"
  using assms
  by (auto simp: continueTransform_def isCornerRotate_def aboutPivot_def transformCalls_def
      foldl_log Let_def)

lemma widget_categories:
  "w = None' \<or> isCornerScale w \<or> (w = TopScale \<or> w = BottomScale)
     \<or> (w = RightScale \<or> w = LeftScale) \<or> isCornerRotate w"
  by (cases w) (simp_all add: isCornerScale_def isCornerRotate_def)

lemma continueTransform_Some:
  assumes "continueTransform st cells x y = Some (xf, calls)"
  shows "hovered st \<noteq> None' \<and> cells \<noteq> [] \<and> (\<exists>s. xf = aboutPivot st s) \<and> calls = transformCalls st xf"
proof -
  from assms have g: "hovered st \<noteq> None'" "cells \<noteq> []"
    by (auto simp: continueTransform_def split: if_splits)
  from widget_categories[of "hovered st"] g(1) show ?thesis
    using assms g continueTransform_cornerScale[of st cells x y]
      continueTransform_verticalScale[of st cells x y]
      continueTransform_horizontalScale[of st cells x y]
      continueTransform_rotate[of st cells x y]
    by auto
qed

lemma aboutPivot_Identity: "aboutPivot st Identity = Identity"
  by (simp add: aboutPivot_def Identity_def affineTimesTranslation_def
      translationTimesAffine_def translationInverse_def Translation2d_def)

lemma Scaling_one: "Scaling (Finite 1) (Finite 1) = Identity"
  by (simp add: Scaling_def Identity_def)

lemma Rotation2Dd_zero: "Rotation2Dd 0 = Identity"
  by (simp add: Rotation2Dd_def Identity_def)

lemma pure_no_translation: "isPureScaleOrRotation s \<Longrightarrow> t1 s = Finite 0 \<and> t2 s = Finite 0"
  by (auto simp: isPureScaleOrRotation_def Scaling_def Rotation2Dd_def)

lemma continueTransform_about_pivot:
  assumes "hovered st \<noteq> None'" and "cells \<noteq> []"
  shows "\<exists>s. isPureScaleOrRotation s
           \<and> continueTransform st cells x y
               = Some (aboutPivot st s, transformCalls st (aboutPivot st s))"
  using widget_categories[of "hovered st"] assms
    continueTransform_cornerScale[of st cells x y]
    continueTransform_verticalScale[of st cells x y]
    continueTransform_horizontalScale[of st cells x y]
    continueTransform_rotate[of st cells x y]
  unfolding isPureScaleOrRotation_def by metis

lemma beginTransform_fields:
  assumes "hovered st \<noteq> None'" and "cells \<noteq> []"
  shows "hovered (fst (beginTransform env st cells x0 y0 time)) = hovered st"
    and "x0' (fst (beginTransform env st cells x0 y0 time)) = x0"
    and "y0' (fst (beginTransform env st cells x0 y0 time)) = y0"
    and "dx' (fst (beginTransform env st cells x0 y0 time))
           = x0 - fst (widgetPos' (hovered st) (outlineBox env cells time))"
    and "dy' (fst (beginTransform env st cells x0 y0 time))
           = y0 - snd (widgetPos' (hovered st) (outlineBox env cells time))"
    and "xPivot' (fst (beginTransform env st cells x0 y0 time))
           = fst (widgetOppositePos' (hovered st) (outlineBox env cells time))"
    and "yPivot' (fst (beginTransform env st cells x0 y0 time))
           = snd (widgetOppositePos' (hovered st) (outlineBox env cells time))"
  using assms by (simp_all add: beginTransform_def Let_def hovered_def)

lemma example_outlineBox:
  "outlineBox exampleScene [exampleEdge] t = \<lparr>xMin = 0, xMax = 10, yMin = 0, yMax = 10\<rparr>"
  by (simp add: outlineBox_def exampleScene_def exampleUnite_def)

lemma example_flat_outlineBox:
  "outlineBox exampleFlatScene [exampleEdge] t = \<lparr>xMin = 0, xMax = 0, yMin = 0, yMax = 10\<rparr>"
  by (simp add: outlineBox_def exampleFlatScene_def exampleScene_def exampleUnite_def)

lemma example_closure:
  "Algorithms_closure (cellsToTransform exampleScene [exampleEdge] t)
     = [exampleEdge, exampleVertexA, exampleVertexB]"
  "Algorithms_closure (cellsToTransform exampleFlatScene [exampleEdge] t)
     = [exampleEdge, exampleVertexA, exampleVertexB]"
  by (simp_all add: Algorithms_closure_def cellsToTransform_def cellsNotToKeyframe_def
      cellsToKeyframe_def sortCell_def insertCell_def toInbetweenCell_def exampleScene_def
      exampleFlatScene_def exampleEdge_def exampleVertexA_def exampleVertexB_def)

lemma example_kinds:
  "toKeyEdge exampleEdge" "\<not> toKeyVertex exampleEdge"
  "toKeyVertex exampleVertexA" "\<not> toKeyEdge exampleVertexA"
  "toKeyVertex exampleVertexB" "\<not> toKeyEdge exampleVertexB"
  by (simp_all add: toKeyVertex_def toKeyEdge_def exampleEdge_def exampleVertexA_def
      exampleVertexB_def)

lemma example_begin:
  "beginTransform exampleScene (exampleTool w) [exampleEdge] a b t =
     (if w = None' then (exampleTool w, [])
      else ((exampleTool w)\<lparr>draggedVertices' := [exampleVertexA, exampleVertexB],
             draggedEdges' := [exampleEdge], x0' := a, y0' := b,
             dx' := a - fst (widgetPos' w \<lparr>xMin = 0, xMax = 10, yMin = 0, yMax = 10\<rparr>),
             dy' := b - snd (widgetPos' w \<lparr>xMin = 0, xMax = 10, yMin = 0, yMax = 10\<rparr>),
             xPivot' := fst (widgetOppositePos' w \<lparr>xMin = 0, xMax = 10, yMin = 0, yMax = 10\<rparr>),
             yPivot' := snd (widgetOppositePos' w \<lparr>xMin = 0, xMax = 10, yMin = 0, yMax = 10\<rparr>)\<rparr>,
            [KeyEdge_prepareAffineTransform exampleEdge,
             KeyVertex_prepareAffineTransform exampleVertexA,
             KeyVertex_prepareAffineTransform exampleVertexB]))"
  by (simp add: beginTransform_def Let_def example_outlineBox example_closure hovered_def
      KeyVertexSet_def KeyEdgeSet_def example_kinds exampleTool_def newTransformTool_def)

lemma example_flat_begin:
  "beginTransform exampleFlatScene (exampleTool TopLeftScale) [exampleEdge] 0 0 t =
     ((exampleTool TopLeftScale)\<lparr>draggedVertices' := [exampleVertexA, exampleVertexB],
        draggedEdges' := [exampleEdge], x0' := 0, y0' := 0, dx' := 0, dy' := 0,
        xPivot' := 0, yPivot' := 10\<rparr>,
      [KeyEdge_prepareAffineTransform exampleEdge,
       KeyVertex_prepareAffineTransform exampleVertexA,
       KeyVertex_prepareAffineTransform exampleVertexB])"
  by (simp add: beginTransform_def Let_def example_flat_outlineBox example_closure hovered_def
      KeyVertexSet_def KeyEdgeSet_def example_kinds exampleTool_def newTransformTool_def)

lemma aboutPivot_linear:
  "a11 (aboutPivot st s) = a11 s" "a12 (aboutPivot st s) = a12 s"
  "a21 (aboutPivot st s) = a21 s" "a22 (aboutPivot st s) = a22 s"
  by (simp_all add: aboutPivot_def affineTimesTranslation_def translationTimesAffine_def)

text \<open>
  Claim C3. \<open>continueTransform\<close> selects the transform by the category of the hovered
  widget: for the four corner scales a scaling with x factor
  \<open>(x - dx' - xPivot') / (x0' - dx' - xPivot')\<close> and the symmetric y factor; for the top and
  bottom scales the x factor is \<open>1\<close> and only the y factor is computed; for the right
  and left scales the y factor is \<open>1\<close>; for the four corner rotations a rotation by
  \<open>atan2 (y - yPivot') (x - xPivot') - atan2 (y0' - yPivot') (x0' - xPivot')\<close>. When the
  outline bounding box is the square from \<open>(0, 0)\<close> to \<open>(10, 10)\<close> and \<open>TopLeftScale\<close> is
  hovered, pressing at \<open>(0, 0)\<close> and dragging to \<open>(5, 5)\<close> scales by \<open>0.5\<close> on both axes
  about the pivot \<open>(10, 10)\<close>.
\<close>

theorem transform_selected_by_widget:
  assumes "cells \<noteq> []"
  shows "(isCornerScale (hovered st) \<longrightarrow>
            map_option fst (continueTransform st cells x y)
              = Some (aboutPivot st
                  (Scaling (ddiv (x - dx' st - xPivot' st) (x0' st - dx' st - xPivot' st))
                           (ddiv (y - dy' st - yPivot' st) (y0' st - dy' st - yPivot' st)))))
    \<and> (hovered st = TopScale \<or> hovered st = BottomScale \<longrightarrow>
            map_option fst (continueTransform st cells x y)
              = Some (aboutPivot st
                  (Scaling (Finite 1)
                           (ddiv (y - dy' st - yPivot' st) (y0' st - dy' st - yPivot' st)))))
    \<and> (hovered st = RightScale \<or> hovered st = LeftScale \<longrightarrow>
            map_option fst (continueTransform st cells x y)
              = Some (aboutPivot st
                  (Scaling (ddiv (x - dx' st - xPivot' st) (x0' st - dx' st - xPivot' st))
                           (Finite 1))))
    \<and> (isCornerRotate (hovered st) \<longrightarrow>
            map_option fst (continueTransform st cells x y)
              = Some (aboutPivot st
                  (Rotation2Dd (atan2 (y - yPivot' st) (x - xPivot' st)
                     - atan2 (y0' st - yPivot' st) (x0' st - xPivot' st)))))
    \<and> (hovered st = TopLeftScale
          \<and> outlineBox env cells time = \<lparr>xMin = 0, xMax = 10, yMin = 0, yMax = 10\<rparr> \<longrightarrow>
            map_option fst (continueTransform (fst (beginTransform env st cells 0 0 time)) cells 5 5)
              = Some (aboutPivot (fst (beginTransform env st cells 0 0 time))
                        (Scaling (Finite 0.5) (Finite 0.5)))
          \<and> xPivot' (fst (beginTransform env st cells 0 0 time)) = 10
          \<and> yPivot' (fst (beginTransform env st cells 0 0 time)) = 10
          \<and> dx' (fst (beginTransform env st cells 0 0 time)) = 0
          \<and> dy' (fst (beginTransform env st cells 0 0 time)) = 0)"
proof -
  have scenario: "map_option fst (continueTransform (fst (beginTransform env st cells 0 0 time)) cells 5 5)
              = Some (aboutPivot (fst (beginTransform env st cells 0 0 time))
                        (Scaling (Finite 0.5) (Finite 0.5)))
          \<and> xPivot' (fst (beginTransform env st cells 0 0 time)) = 10
          \<and> yPivot' (fst (beginTransform env st cells 0 0 time)) = 10
          \<and> dx' (fst (beginTransform env st cells 0 0 time)) = 0
          \<and> dy' (fst (beginTransform env st cells 0 0 time)) = 0"
    if h: "hovered st = TopLeftScale"
      and b: "outlineBox env cells time = \<lparr>xMin = 0, xMax = 10, yMin = 0, yMax = 10\<rparr>"
  proof -
    let ?st = "fst (beginTransform env st cells 0 0 time)"
    have n: "hovered st \<noteq> None'" using h by simp
    note f = beginTransform_fields[OF n assms, of env 0 0 time]
    have c: "isCornerScale (hovered ?st)"
      using f(1) h by (simp add: isCornerScale_def)
    have v: "x0' ?st = 0" "y0' ?st = 0" "dx' ?st = 0" "dy' ?st = 0" "xPivot' ?st = 10" "yPivot' ?st = 10"
      using f h b by simp_all
    have "xRatio ?st 5 = Finite 0.5" "yRatio ?st 5 = Finite 0.5"
      by (simp_all add: xRatio_def yRatio_def v ddiv_def)
    with continueTransform_cornerScale[OF c assms, of 5 5] v show ?thesis
      by simp
  qed
  show ?thesis
    using scenario
      continueTransform_cornerScale[of st cells x y]
      continueTransform_verticalScale[of st cells x y]
      continueTransform_horizontalScale[of st cells x y]
      continueTransform_rotate[of st cells x y] assms
    by (simp add: xRatio_def yRatio_def)
qed

theorem transform_selected_by_widget_witness:
  "map_option fst
     (continueTransform
        (fst (beginTransform exampleScene (exampleTool TopLeftScale) [exampleEdge] 0 0 (0::nat)))
        [exampleEdge] 5 5)
   = Some \<lparr>a11 = Finite 0.5, a12 = Finite 0, a21 = Finite 0, a22 = Finite 0.5,
            t1 = Finite 5, t2 = Finite 5\<rparr>
   \<and> map_option fst
     (continueTransform
        (fst (beginTransform exampleScene (exampleTool BottomScale) [exampleEdge] 5 10 (0::nat)))
        [exampleEdge] 5 20)
   = Some (Scaling (Finite 1) (Finite 2))"
proof -
  let ?tool = "exampleTool TopLeftScale"
  let ?st = "fst (beginTransform exampleScene ?tool [exampleEdge] 0 0 (0::nat))"
  let ?su = "fst (beginTransform exampleScene (exampleTool BottomScale) [exampleEdge] 5 10 (0::nat))"
  have c: "[exampleEdge] \<noteq> []" by simp
  have h: "hovered ?tool = TopLeftScale"
    by (simp add: hovered_def exampleTool_def)
  have p: "xPivot' ?st = 10" "yPivot' ?st = 10"
    by (simp_all add: example_begin)
  have "map_option fst (continueTransform ?st [exampleEdge] 5 5)
          = Some (aboutPivot ?st (Scaling (Finite 0.5) (Finite 0.5)))"
    using transform_selected_by_widget[OF c, of ?tool 0 0 exampleScene 0] h example_outlineBox[of 0]
    by simp
  then have a: "map_option fst (continueTransform ?st [exampleEdge] 5 5)
          = Some \<lparr>a11 = Finite 0.5, a12 = Finite 0, a21 = Finite 0, a22 = Finite 0.5,
                   t1 = Finite 5, t2 = Finite 5\<rparr>"
    by (simp add: aboutPivot_def p Scaling_def affineTimesTranslation_def
        translationTimesAffine_def translationInverse_def Translation2d_def)
  have hb: "hovered ?su = BottomScale"
    and v: "dy' ?su = 0" "y0' ?su = 10" "xPivot' ?su = 5" "yPivot' ?su = 0"
    by (simp_all add: example_begin hovered_def xMid_def) (simp_all add: exampleTool_def)
  have "map_option fst (continueTransform ?su [exampleEdge] 5 20)
          = Some (aboutPivot ?su (Scaling (Finite 1) (Finite 2)))"
    using transform_selected_by_widget[OF c, of ?su 5 20 exampleScene 0] hb
    by (simp add: v ddiv_def)
  then have b: "map_option fst (continueTransform ?su [exampleEdge] 5 20)
          = Some (Scaling (Finite 1) (Finite 2))"
    by (simp add: aboutPivot_def v Scaling_def affineTimesTranslation_def
        translationTimesAffine_def translationInverse_def Translation2d_def)
  from a b show ?thesis by simp
qed

text \<open>
  Claim C4. In the state that a successful \<open>beginTransform\<close> with press position
  \<open>(x0, y0)\<close> leaves, and when the two scale denominators \<open>x0 - dx' - xPivot'\<close> and
  \<open>y0 - dy' - yPivot'\<close> are not zero, \<open>continueTransform\<close> at \<open>(x0, y0)\<close> builds the
  identity: every cached edge and vertex receives the identity transform.
\<close>

theorem identity_at_press:
  assumes "hovered st \<noteq> None'" and "cells \<noteq> []"
    and "x0 - dx' (fst (beginTransform env st cells x0 y0 time))
            - xPivot' (fst (beginTransform env st cells x0 y0 time)) \<noteq> 0"
    and "y0 - dy' (fst (beginTransform env st cells x0 y0 time))
            - yPivot' (fst (beginTransform env st cells x0 y0 time)) \<noteq> 0"
  shows "continueTransform (fst (beginTransform env st cells x0 y0 time)) cells x0 y0
           = Some (Identity, transformCalls (fst (beginTransform env st cells x0 y0 time)) Identity)"
proof -
  let ?st = "fst (beginTransform env st cells x0 y0 time)"
  have h: "hovered ?st = hovered st" and x: "x0' ?st = x0" and y: "y0' ?st = y0"
    using assms(1,2) by (simp_all add: beginTransform_fields)
  have rx: "xRatio ?st x0 = Finite 1" and ry: "yRatio ?st y0 = Finite 1"
    using assms(3,4) by (simp_all add: xRatio_def yRatio_def x y ddiv_def)
  from widget_categories[of "hovered ?st"] h assms(1)
  consider "isCornerScale (hovered ?st)" | "hovered ?st = TopScale \<or> hovered ?st = BottomScale"
    | "hovered ?st = RightScale \<or> hovered ?st = LeftScale" | "isCornerRotate (hovered ?st)"
    by auto
  then show ?thesis
  proof cases
    case 1
    from continueTransform_cornerScale[OF 1 assms(2), of x0 y0] show ?thesis
      by (simp add: rx ry Scaling_one aboutPivot_Identity)
  next
    case 2
    from continueTransform_verticalScale[OF 2 assms(2), of x0 y0] show ?thesis
      by (simp add: ry Scaling_one aboutPivot_Identity)
  next
    case 3
    from continueTransform_horizontalScale[OF 3 assms(2), of x0 y0] show ?thesis
      by (simp add: rx Scaling_one aboutPivot_Identity)
  next
    case 4
    from continueTransform_rotate[OF 4 assms(2), of x0 y0] show ?thesis
      by (simp add: x y Rotation2Dd_zero aboutPivot_Identity)
  qed
qed

theorem identity_at_press_witness:
  "continueTransform (fst (beginTransform exampleScene (exampleTool TopLeftScale) [exampleEdge] 1 2 (0::nat)))
     [exampleEdge] 1 2
   = Some (Identity,
       [KeyEdge_performAffineTransform exampleEdge Identity,
        KeyVertex_performAffineTransform exampleVertexA Identity,
        KeyVertex_performAffineTransform exampleVertexB Identity,
        KeyVertex_correctEdgesGeometry exampleVertexA,
        KeyVertex_correctEdgesGeometry exampleVertexB])"
proof -
  let ?tool = "exampleTool TopLeftScale"
  let ?st = "fst (beginTransform exampleScene ?tool [exampleEdge] 1 2 (0::nat))"
  have h: "hovered ?tool \<noteq> None'"
    by (simp add: hovered_def exampleTool_def)
  have c: "[exampleEdge] \<noteq> []" by simp
  have dx: "1 - dx' ?st - xPivot' ?st \<noteq> 0" and dy: "2 - dy' ?st - yPivot' ?st \<noteq> 0"
    by (simp_all add: example_begin)
  from identity_at_press[OF h c dx dy] show ?thesis
    by (simp add: transformCalls_def example_begin)
qed

text \<open>
  Claim C8. For a hovered scale widget and a non-empty cell set \<open>continueTransform\<close>
  always builds a transform and hands it to the cached cells; its scale factors are the
  quotients as written, whatever the denominators are. In particular, when a denominator
  that the widget divides by is \<open>0\<close>, the factor is not finite and the transform is
  applied all the same: no branch rejects or clamps a ratio.
\<close>

theorem scale_ratio_unguarded:
  assumes "cells \<noteq> []"
  shows "(isCornerScale (hovered st) \<longrightarrow>
            (\<exists>xf. continueTransform st cells x y = Some (xf, transformCalls st xf)
               \<and> a11 xf = ddiv (x - dx' st - xPivot' st) (x0' st - dx' st - xPivot' st)
               \<and> a22 xf = ddiv (y - dy' st - yPivot' st) (y0' st - dy' st - yPivot' st)))
    \<and> (hovered st = TopScale \<or> hovered st = BottomScale \<longrightarrow>
            (\<exists>xf. continueTransform st cells x y = Some (xf, transformCalls st xf)
               \<and> a11 xf = Finite 1
               \<and> a22 xf = ddiv (y - dy' st - yPivot' st) (y0' st - dy' st - yPivot' st)))
    \<and> (hovered st = RightScale \<or> hovered st = LeftScale \<longrightarrow>
            (\<exists>xf. continueTransform st cells x y = Some (xf, transformCalls st xf)
               \<and> a11 xf = ddiv (x - dx' st - xPivot' st) (x0' st - dx' st - xPivot' st)
               \<and> a22 xf = Finite 1))
    \<and> (usesXRatio (hovered st) \<and> x0' st - dx' st - xPivot' st = 0 \<longrightarrow>
            (\<exists>xf. continueTransform st cells x y = Some (xf, transformCalls st xf)
               \<and> a11 xf = NonFinite))
    \<and> (usesYRatio (hovered st) \<and> y0' st - dy' st - yPivot' st = 0 \<longrightarrow>
            (\<exists>xf. continueTransform st cells x y = Some (xf, transformCalls st xf)
               \<and> a22 xf = NonFinite))"
proof -
  have corner: "\<exists>xf. continueTransform st cells x y = Some (xf, transformCalls st xf)
      \<and> a11 xf = xRatio st x \<and> a22 xf = yRatio st y"
    if "isCornerScale (hovered st)"
    using continueTransform_cornerScale[OF that assms, of x y]
    by (simp add: aboutPivot_linear Scaling_def)
  have vertical: "\<exists>xf. continueTransform st cells x y = Some (xf, transformCalls st xf)
      \<and> a11 xf = Finite 1 \<and> a22 xf = yRatio st y"
    if "hovered st = TopScale \<or> hovered st = BottomScale"
    using continueTransform_verticalScale[OF that assms, of x y]
    by (simp add: aboutPivot_linear Scaling_def)
  have horizontal: "\<exists>xf. continueTransform st cells x y = Some (xf, transformCalls st xf)
      \<and> a11 xf = xRatio st x \<and> a22 xf = Finite 1"
    if "hovered st = RightScale \<or> hovered st = LeftScale"
    using continueTransform_horizontalScale[OF that assms, of x y]
    by (simp add: aboutPivot_linear Scaling_def)
  have zx: "\<exists>xf. continueTransform st cells x y = Some (xf, transformCalls st xf)
      \<and> a11 xf = NonFinite"
    if "usesXRatio (hovered st) \<and> x0' st - dx' st - xPivot' st = 0"
  proof -
    from that have "xRatio st x = NonFinite"
      by (simp add: xRatio_def ddiv_def)
    with that corner horizontal show ?thesis
      unfolding usesXRatio_def by metis
  qed
  have zy: "\<exists>xf. continueTransform st cells x y = Some (xf, transformCalls st xf)
      \<and> a22 xf = NonFinite"
    if "usesYRatio (hovered st) \<and> y0' st - dy' st - yPivot' st = 0"
  proof -
    from that have "yRatio st y = NonFinite"
      by (simp add: yRatio_def ddiv_def)
    with that corner vertical show ?thesis
      unfolding usesYRatio_def by metis
  qed
  from corner vertical horizontal zx zy show ?thesis
    unfolding xRatio_def yRatio_def by blast
qed

theorem scale_ratio_unguarded_witness:
  "x0' (fst (beginTransform exampleFlatScene (exampleTool TopLeftScale) [exampleEdge] 0 0 (0::nat)))
     - dx' (fst (beginTransform exampleFlatScene (exampleTool TopLeftScale) [exampleEdge] 0 0 (0::nat)))
     - xPivot' (fst (beginTransform exampleFlatScene (exampleTool TopLeftScale) [exampleEdge] 0 0 (0::nat)))
   = 0
   \<and> (\<exists>xf. continueTransform
              (fst (beginTransform exampleFlatScene (exampleTool TopLeftScale) [exampleEdge] 0 0 (0::nat)))
              [exampleEdge] 5 5
           = Some (xf,
               [KeyEdge_performAffineTransform exampleEdge xf,
                KeyVertex_performAffineTransform exampleVertexA xf,
                KeyVertex_performAffineTransform exampleVertexB xf,
                KeyVertex_correctEdgesGeometry exampleVertexA,
                KeyVertex_correctEdgesGeometry exampleVertexB])
         \<and> a11 xf = NonFinite)"
proof -
  let ?st = "fst (beginTransform exampleFlatScene (exampleTool TopLeftScale) [exampleEdge] 0 0 (0::nat))"
  have c: "[exampleEdge] \<noteq> []" by simp
  have h: "usesXRatio (hovered ?st)"
    by (simp add: example_flat_begin hovered_def)
      (simp add: exampleTool_def isCornerScale_def usesXRatio_def)
  have z: "x0' ?st - dx' ?st - xPivot' ?st = 0"
    by (simp add: example_flat_begin)
  have t: "transformCalls ?st xf =
     [KeyEdge_performAffineTransform exampleEdge xf,
      KeyVertex_performAffineTransform exampleVertexA xf,
      KeyVertex_performAffineTransform exampleVertexB xf,
      KeyVertex_correctEdgesGeometry exampleVertexA,
      KeyVertex_correctEdgesGeometry exampleVertexB]" for xf
    by (simp add: transformCalls_def example_flat_begin)
  from scale_ratio_unguarded[OF c, of ?st 5 5] h z
  have "\<exists>xf. continueTransform ?st [exampleEdge] 5 5 = Some (xf, transformCalls ?st xf)
      \<and> a11 xf = NonFinite"
    by blast
  with z show ?thesis
    unfolding t by blast
qed

text \<open>
  Claim C9. When \<open>continueTransform\<close> applies a transform, its calls are, in this order:
  \<open>performAffineTransform\<close> on every cached edge, \<open>performAffineTransform\<close> on every
  cached vertex, \<open>correctEdgesGeometry\<close> on every cached vertex. So no
  \<open>correctEdgesGeometry\<close> comes before the \<open>performAffineTransform\<close> of any vertex, and
  every edge is transformed before any vertex.
\<close>

theorem geometry_call_order:
  assumes "continueTransform st cells x y = Some (xf, calls)"
  shows "calls = map (\<lambda>e. KeyEdge_performAffineTransform e xf) (draggedEdges' st)
                 @ map (\<lambda>v. KeyVertex_performAffineTransform v xf) (draggedVertices' st)
                 @ map KeyVertex_correctEdgesGeometry (draggedVertices' st)
    \<and> (\<forall>i j v w g. i < length calls \<and> j < length calls
          \<and> calls ! i = KeyVertex_correctEdgesGeometry v
          \<and> calls ! j = KeyVertex_performAffineTransform w g \<longrightarrow> j < i)
    \<and> (\<forall>i j e w g h. i < length calls \<and> j < length calls
          \<and> calls ! i = KeyEdge_performAffineTransform e g
          \<and> calls ! j = KeyVertex_performAffineTransform w h \<longrightarrow> i < j)"
proof -
  let ?A = "map (\<lambda>e. KeyEdge_performAffineTransform e xf) (draggedEdges' st)"
  let ?B = "map (\<lambda>v. KeyVertex_performAffineTransform v xf) (draggedVertices' st)"
  let ?C = "map KeyVertex_correctEdgesGeometry (draggedVertices' st)"
  have c: "calls = ?A @ ?B @ ?C"
    using continueTransform_Some[OF assms] by (simp add: transformCalls_def)
  have ord1: "j < i" if "i < length calls" "j < length calls"
      "calls ! i = KeyVertex_correctEdgesGeometry v"
      "calls ! j = KeyVertex_performAffineTransform w g" for i j v w g
    using that unfolding c by (auto simp: nth_append split: if_splits)
  have ord2: "i < j" if "i < length calls" "j < length calls"
      "calls ! i = KeyEdge_performAffineTransform e g"
      "calls ! j = KeyVertex_performAffineTransform w h" for i j e w g h
    using that unfolding c by (auto simp: nth_append split: if_splits)
  from c ord1 ord2 show ?thesis by blast
qed

theorem geometry_call_order_witness:
  "\<exists>xf. continueTransform
        (fst (beginTransform exampleScene (exampleTool TopLeftScale) [exampleEdge] 0 0 (0::nat)))
        [exampleEdge] 5 5
   = Some (xf,
       [KeyEdge_performAffineTransform exampleEdge xf,
        KeyVertex_performAffineTransform exampleVertexA xf,
        KeyVertex_performAffineTransform exampleVertexB xf,
        KeyVertex_correctEdgesGeometry exampleVertexA,
        KeyVertex_correctEdgesGeometry exampleVertexB])"
proof -
  let ?st = "fst (beginTransform exampleScene (exampleTool TopLeftScale) [exampleEdge] 0 0 (0::nat))"
  have c: "[exampleEdge] \<noteq> []" by simp
  have h: "isCornerScale (hovered ?st)"
    by (simp add: example_begin hovered_def) (simp add: exampleTool_def isCornerScale_def)
  from continueTransform_cornerScale[OF h c, of 5 5] obtain xf calls where
    r: "continueTransform ?st [exampleEdge] 5 5 = Some (xf, calls)"
    by blast
  from geometry_call_order[OF r]
  have "calls = [KeyEdge_performAffineTransform exampleEdge xf,
        KeyVertex_performAffineTransform exampleVertexA xf,
        KeyVertex_performAffineTransform exampleVertexB xf,
        KeyVertex_correctEdgesGeometry exampleVertexA,
        KeyVertex_correctEdgesGeometry exampleVertexB]"
    by (simp add: example_begin)
  with r show ?thesis by blast
qed

text \<open>
  Claim C10. \<open>continueTransform\<close> depends on its cell set only through its emptiness:
  on two non-empty cell sets and the same state it builds the same transform and makes
  the same calls on the same cached cells.
\<close>

theorem cells_only_through_emptiness:
  assumes "A \<noteq> []" and "B \<noteq> []"
  shows "continueTransform st A x y = continueTransform st B x y"
  using assms by (simp add: continueTransform_def)

theorem cells_only_through_emptiness_witness:
  "continueTransform
      (fst (beginTransform exampleScene (exampleTool TopLeftScale) [exampleEdge] 0 0 (0::nat)))
      [exampleEdge] 5 5
   = continueTransform
      (fst (beginTransform exampleScene (exampleTool TopLeftScale) [exampleEdge] 0 0 (0::nat)))
      [exampleVertexA, exampleVertexB] 5 5
   \<and> continueTransform
      (fst (beginTransform exampleScene (exampleTool TopLeftScale) [exampleEdge] 0 0 (0::nat)))
      [exampleEdge] 5 5 \<noteq> None"
proof -
  let ?st = "fst (beginTransform exampleScene (exampleTool TopLeftScale) [exampleEdge] 0 0 (0::nat))"
  have a: "[exampleEdge] \<noteq> []" and b: "[exampleVertexA, exampleVertexB] \<noteq> []"
    by simp_all
  have h: "isCornerScale (hovered ?st)"
    by (simp add: example_begin hovered_def) (simp add: exampleTool_def isCornerScale_def)
  have "continueTransform ?st [exampleEdge] 5 5 \<noteq> None"
    using continueTransform_cornerScale[OF h a, of 5 5] by simp
  with cells_only_through_emptiness[OF a b, of ?st 5 5]
  show ?thesis by blast
qed

subsection \<open>The image of the pivot\<close>

lemma daddR_id: "daddR id a b = dadd a b"
  by (cases a; cases b) simp_all

lemma dmulR_id: "dmulR id a b = dmul a b"
  by (cases a; cases b) simp_all

lemma aboutPivotR_id: "aboutPivotR id st s = aboutPivot st s"
  by (simp add: aboutPivotR_def aboutPivot_def affineTimesTranslationR_def
      affineTimesTranslation_def translationTimesAffineR_def translationTimesAffine_def
      daddR_id dmulR_id)

lemma continueTransform_composition:
  assumes "hovered st \<noteq> None'" and "cells \<noteq> []"
  shows "\<exists>s. isPureScaleOrRotation s
           \<and> continueTransform st cells x y
               = Some (aboutPivotR id st s, transformCalls st (aboutPivotR id st s))"
  using continueTransform_about_pivot[OF assms, of x y] by (simp add: aboutPivotR_id)

lemma Scaling_linearTransform: "Scaling (Finite sx) (Finite sy) = linearTransform sx 0 0 sy"
  by (simp add: Scaling_def linearTransform_def)

lemma Rotation2Dd_linearTransform:
  "Rotation2Dd theta = linearTransform (cos theta) (- sin theta) (sin theta) (cos theta)"
  by (simp add: Rotation2Dd_def linearTransform_def)

lemma applyAffineR_NonFinite:
  "a11 xf = NonFinite \<Longrightarrow> fst (applyAffineR rnd xf p) = NonFinite"
  by (simp add: applyAffineR_def)

lemma pivot_image_rounded:
  "applyAffineR rnd (aboutPivotR rnd st (linearTransform a b c d)) (xPivot' st, yPivot' st)
     = (Finite (roundedCoordinate rnd a b (xPivot' st) (yPivot' st) (xPivot' st)),
        Finite (roundedCoordinate rnd c d (xPivot' st) (yPivot' st) (yPivot' st)))"
  by (simp add: applyAffineR_def aboutPivotR_def affineTimesTranslationR_def
      translationTimesAffineR_def translationInverse_def Translation2d_def
      linearTransform_def roundedCoordinate_def)

lemma scaled_bound:
  fixes u v x y z ca cb cc :: real
  assumes "0 \<le> u" and "\<bar>v\<bar> \<le> ca * x + cb * y + cc * z"
  shows "u * \<bar>v\<bar> \<le> ca * (u * x) + cb * (u * y) + cc * (u * z)"
proof -
  have "u * \<bar>v\<bar> \<le> u * (ca * x + cb * y + cc * z)"
    by (rule mult_left_mono[OF assms(2) assms(1)])
  then show ?thesis by (simp add: algebra_simps)
qed

lemma roundedCoordinate_bound:
  fixes u a b px py p :: real
  assumes u: "0 \<le> u" "u \<le> 1 / 8"
    and acc: "\<forall>v \<in> set (coordinateOperations rnd a b px py p). \<bar>rnd v - v\<bar> \<le> u * \<bar>v\<bar>"
  shows "\<bar>roundedCoordinate rnd a b px py p - p\<bar>
           \<le> 7 * u * (\<bar>a * px\<bar> + \<bar>b * py\<bar> + \<bar>p\<bar>)"
proof -
  define al where "al = a * px"
  define be where "be = b * py"
  define q where "q = rnd (0 + p)"
  define n1 where "n1 = rnd (a * (- px))"
  define n2 where "n2 = rnd (b * (- py))"
  define n where "n = rnd (n1 + n2)"
  define t where "t = rnd (q + n)"
  define m1 where "m1 = rnd (a * px)"
  define m2 where "m2 = rnd (b * py)"
  define m where "m = rnd (m1 + m2)"
  define r where "r = rnd (m + t)"
  define Ua where "Ua = u * \<bar>al\<bar>"
  define Ub where "Ub = u * \<bar>be\<bar>"
  define Up where "Up = u * \<bar>p\<bar>"
  have U0: "0 \<le> Ua" "0 \<le> Ub" "0 \<le> Up"
    using u(1) by (simp_all add: Ua_def Ub_def Up_def)
  have U8: "Ua \<le> \<bar>al\<bar> / 8" "Ub \<le> \<bar>be\<bar> / 8" "Up \<le> \<bar>p\<bar> / 8"
    using mult_right_mono[OF u(2), of "\<bar>al\<bar>"] mult_right_mono[OF u(2), of "\<bar>be\<bar>"]
      mult_right_mono[OF u(2), of "\<bar>p\<bar>"]
    by (simp_all add: Ua_def Ub_def Up_def)
  note ops = acc[unfolded coordinateOperations_def, simplified]
  have hq: "\<bar>q - p\<bar> \<le> Up"
    using ops by (simp add: q_def Up_def)
  have hn1: "\<bar>n1 + al\<bar> \<le> Ua"
    using ops by (simp add: n1_def al_def Ua_def)
  have hn2: "\<bar>n2 + be\<bar> \<le> Ub"
    using ops by (simp add: n2_def be_def Ub_def)
  have hm1: "\<bar>m1 - al\<bar> \<le> Ua"
    using ops by (simp add: m1_def al_def Ua_def)
  have hm2: "\<bar>m2 - be\<bar> \<le> Ub"
    using ops by (simp add: m2_def be_def Ub_def)
  have an: "\<bar>rnd (n1 + n2) - (n1 + n2)\<bar> \<le> u * \<bar>n1 + n2\<bar>"
    using ops by (simp add: n1_def n2_def)
  have am: "\<bar>rnd (m1 + m2) - (m1 + m2)\<bar> \<le> u * \<bar>m1 + m2\<bar>"
    using ops by (simp add: m1_def m2_def)
  have at: "\<bar>rnd (q + n) - (q + n)\<bar> \<le> u * \<bar>q + n\<bar>"
    using ops by (simp add: q_def n_def n1_def n2_def)
  have ar: "\<bar>rnd (m + t) - (m + t)\<bar> \<le> u * \<bar>m + t\<bar>"
    using ops by (simp add: m_def t_def q_def n_def n1_def n2_def m1_def m2_def)
  \<comment> \<open>the sum of the negated products\<close>
  have "\<bar>n1 + n2\<bar> \<le> (9 / 8) * \<bar>al\<bar> + (9 / 8) * \<bar>be\<bar> + 0 * \<bar>p\<bar>"
    using hn1 hn2 U8 by linarith
  from scaled_bound[OF u(1) this] have "u * \<bar>n1 + n2\<bar> \<le> (9 / 8) * Ua + (9 / 8) * Ub"
    by (simp add: Ua_def Ub_def)
  with an have hn: "\<bar>n + (al + be)\<bar> \<le> (17 / 8) * Ua + (17 / 8) * Ub"
    using hn1 hn2 unfolding n_def by linarith
  \<comment> \<open>the sum of the products\<close>
  have "\<bar>m1 + m2\<bar> \<le> (9 / 8) * \<bar>al\<bar> + (9 / 8) * \<bar>be\<bar> + 0 * \<bar>p\<bar>"
    using hm1 hm2 U8 by linarith
  from scaled_bound[OF u(1) this] have "u * \<bar>m1 + m2\<bar> \<le> (9 / 8) * Ua + (9 / 8) * Ub"
    by (simp add: Ua_def Ub_def)
  with am have hm: "\<bar>m - (al + be)\<bar> \<le> (17 / 8) * Ua + (17 / 8) * Ub"
    using hm1 hm2 unfolding m_def by linarith
  \<comment> \<open>the translation\<close>
  have "\<bar>q + n\<bar> \<le> (81 / 64) * \<bar>al\<bar> + (81 / 64) * \<bar>be\<bar> + (9 / 8) * \<bar>p\<bar>"
    using hq hn U8 U0 by linarith
  from scaled_bound[OF u(1) this]
  have "u * \<bar>q + n\<bar> \<le> (81 / 64) * Ua + (81 / 64) * Ub + (9 / 8) * Up"
    by (simp add: Ua_def Ub_def Up_def)
  with at have ht: "\<bar>t - (p - (al + be))\<bar> \<le> (217 / 64) * Ua + (217 / 64) * Ub + (17 / 8) * Up"
    using hq hn unfolding t_def by linarith
  \<comment> \<open>the image\<close>
  have e: "\<bar>m + t - p\<bar> \<le> (353 / 64) * Ua + (353 / 64) * Ub + (17 / 8) * Up"
    using hm ht by linarith
  then have "\<bar>m + t\<bar> \<le> (353 / 512) * \<bar>al\<bar> + (353 / 512) * \<bar>be\<bar> + (81 / 64) * \<bar>p\<bar>"
    using U8 U0 by linarith
  from scaled_bound[OF u(1) this]
  have "u * \<bar>m + t\<bar> \<le> (353 / 512) * Ua + (353 / 512) * Ub + (81 / 64) * Up"
    by (simp add: Ua_def Ub_def Up_def)
  with ar e have "\<bar>r - p\<bar> \<le> 7 * Ua + 7 * Ub + 7 * Up"
    using U0 unfolding r_def by linarith
  moreover have "r = roundedCoordinate rnd a b px py p"
    by (simp add: r_def m_def t_def q_def n_def n1_def n2_def m1_def m2_def roundedCoordinate_def)
  ultimately show ?thesis
    by (simp add: Ua_def Ub_def Up_def al_def be_def algebra_simps)
qed

lemma pivot_fixed_without_rounding:
  assumes "\<forall>v \<in> set (pivotImageOperations rnd st a b c d). rnd v = v"
  shows "applyAffineR rnd (aboutPivotR rnd st (linearTransform a b c d)) (xPivot' st, yPivot' st)
           = (Finite (xPivot' st), Finite (yPivot' st))"
proof -
  from assms have
    x: "\<forall>v \<in> set (coordinateOperations rnd a b (xPivot' st) (yPivot' st) (xPivot' st)).
          \<bar>rnd v - v\<bar> \<le> 0 * \<bar>v\<bar>"
    and y: "\<forall>v \<in> set (coordinateOperations rnd c d (xPivot' st) (yPivot' st) (yPivot' st)).
          \<bar>rnd v - v\<bar> \<le> 0 * \<bar>v\<bar>"
    by (simp_all add: pivotImageOperations_def)
  have "roundedCoordinate rnd a b (xPivot' st) (yPivot' st) (xPivot' st) = xPivot' st"
    using roundedCoordinate_bound[OF _ _ x] by simp
  moreover have "roundedCoordinate rnd c d (xPivot' st) (yPivot' st) (yPivot' st) = yPivot' st"
    using roundedCoordinate_bound[OF _ _ y] by simp
  ultimately show ?thesis
    by (simp add: pivot_image_rounded)
qed

lemma exampleRounding_values:
  "exampleRounding 0 = 0" "exampleRounding 5 = 5" "exampleRounding 6 = 6"
  "exampleRounding 10 = 10" "exampleRounding 11 = 11" "exampleRounding (- 5) = - 5"
  "exampleRounding (11 / 2) = 6" "exampleRounding (- (11 / 2)) = - 5"
  by (simp_all add: exampleRounding_def round_def)

text \<open>
  Claim C2, as the code has it. \<open>continueTransform\<close> hands \<open>pivot * S * pivot.inverse()\<close> to
  the geometry, for the scaling or rotation \<open>S\<close> that it selected. Take any \<open>S\<close> with finite
  entries and no translation, whatever rounding its entries went through, and any rounding
  of the operations of the composition and of the application to the pivot that is
  accurate to a relative error \<open>u \<le> 1 / 8\<close> at each of them (for double arithmetic
  without overflow and underflow, \<open>u\<close> is 2 to the power -53). Then the image of the recorded pivot
  \<open>(xPivot', yPivot')\<close> has finite coordinates, and each of them differs from that of the pivot
  by at most \<open>7 * u\<close> times the sum of the absolute values of the two products of its row of
  \<open>S\<close> with the pivot and of the coordinate of the pivot. The pivot is a fixed point up to
  rounding; where no operation rounds, it is a fixed point (\<open>pivot_fixed_without_rounding\<close>).
\<close>

theorem pivot_fixed_up_to_rounding:
  fixes u a b c d :: real
  assumes "0 \<le> u" and "u \<le> 1 / 8"
    and "\<forall>v \<in> set (pivotImageOperations rnd st a b c d). \<bar>rnd v - v\<bar> \<le> u * \<bar>v\<bar>"
  shows "(hovered st \<noteq> None' \<and> cells \<noteq> [] \<longrightarrow>
            (\<exists>s. isPureScaleOrRotation s
               \<and> map_option fst (continueTransform st cells x y) = Some (aboutPivotR id st s)))
    \<and> (\<exists>X Y.
           applyAffineR rnd (aboutPivotR rnd st (linearTransform a b c d)) (xPivot' st, yPivot' st)
             = (Finite X, Finite Y)
           \<and> \<bar>X - xPivot' st\<bar>
               \<le> 7 * u * (\<bar>a * xPivot' st\<bar> + \<bar>b * yPivot' st\<bar> + \<bar>xPivot' st\<bar>)
           \<and> \<bar>Y - yPivot' st\<bar>
               \<le> 7 * u * (\<bar>c * xPivot' st\<bar> + \<bar>d * yPivot' st\<bar> + \<bar>yPivot' st\<bar>))"
proof -
  have built: "\<exists>s. isPureScaleOrRotation s
      \<and> map_option fst (continueTransform st cells x y) = Some (aboutPivotR id st s)"
    if "hovered st \<noteq> None' \<and> cells \<noteq> []"
  proof -
    from that continueTransform_composition[of st cells x y] obtain s where
      "isPureScaleOrRotation s"
      "continueTransform st cells x y
         = Some (aboutPivotR id st s, transformCalls st (aboutPivotR id st s))"
      by blast
    then show ?thesis by auto
  qed
  from assms(3) have
    x: "\<forall>v \<in> set (coordinateOperations rnd a b (xPivot' st) (yPivot' st) (xPivot' st)).
          \<bar>rnd v - v\<bar> \<le> u * \<bar>v\<bar>"
    and y: "\<forall>v \<in> set (coordinateOperations rnd c d (xPivot' st) (yPivot' st) (yPivot' st)).
          \<bar>rnd v - v\<bar> \<le> u * \<bar>v\<bar>"
    by (simp_all add: pivotImageOperations_def)
  from roundedCoordinate_bound[OF assms(1,2) x] roundedCoordinate_bound[OF assms(1,2) y]
  have "\<exists>X Y.
           applyAffineR rnd (aboutPivotR rnd st (linearTransform a b c d)) (xPivot' st, yPivot' st)
             = (Finite X, Finite Y)
           \<and> \<bar>X - xPivot' st\<bar>
               \<le> 7 * u * (\<bar>a * xPivot' st\<bar> + \<bar>b * yPivot' st\<bar> + \<bar>xPivot' st\<bar>)
           \<and> \<bar>Y - yPivot' st\<bar>
               \<le> 7 * u * (\<bar>c * xPivot' st\<bar> + \<bar>d * yPivot' st\<bar> + \<bar>yPivot' st\<bar>)"
    by (simp add: pivot_image_rounded)
  with built show ?thesis by blast
qed

theorem pivot_fixed_up_to_rounding_witness:
  "list_all (\<lambda>v. \<bar>exampleRounding v - v\<bar> \<le> 1 / 8 * \<bar>v\<bar>)
     (pivotImageOperations exampleRounding
        (fst (beginTransform exampleScene (exampleTool TopLeftScale) [exampleEdge] 0 0 (0::nat)))
        (11 / 20) 0 0 (1 / 2))
   \<and> applyAffineR exampleRounding
        (aboutPivotR exampleRounding
           (fst (beginTransform exampleScene (exampleTool TopLeftScale) [exampleEdge] 0 0 (0::nat)))
           (linearTransform (11 / 20) 0 0 (1 / 2)))
        (10, 10)
      = (Finite 11, Finite 10)
   \<and> (\<exists>X Y. applyAffineR exampleRounding
        (aboutPivotR exampleRounding
           (fst (beginTransform exampleScene (exampleTool TopLeftScale) [exampleEdge] 0 0 (0::nat)))
           (linearTransform (11 / 20) 0 0 (1 / 2)))
        (10, 10)
      = (Finite X, Finite Y)
      \<and> \<bar>X - 10\<bar> \<le> 7 * (1 / 8) * (\<bar>11 / 20 * 10\<bar> + \<bar>0 * 10\<bar> + \<bar>10\<bar>)
      \<and> \<bar>Y - 10\<bar> \<le> 7 * (1 / 8) * (\<bar>0 * 10\<bar> + \<bar>1 / 2 * 10\<bar> + \<bar>10\<bar>))"
proof -
  let ?st = "fst (beginTransform exampleScene (exampleTool TopLeftScale) [exampleEdge] 0 0 (0::nat))"
  have p: "xPivot' ?st = 10" "yPivot' ?st = 10"
    by (simp_all add: example_begin)
  have ops: "pivotImageOperations exampleRounding ?st (11 / 20) 0 0 (1 / 2)
      = [10, - (11 / 2), 0, - 5, 5, 11 / 2, 0, 6, 11, 10, 0, - 5, - 5, 5, 0, 5, 5, 10]"
    by (simp add: pivotImageOperations_def coordinateOperations_def p exampleRounding_values)
  have acc: "\<forall>v \<in> set (pivotImageOperations exampleRounding ?st (11 / 20) 0 0 (1 / 2)).
      \<bar>exampleRounding v - v\<bar> \<le> 1 / 8 * \<bar>v\<bar>"
    unfolding ops by (simp add: exampleRounding_values)
  have img: "applyAffineR exampleRounding
        (aboutPivotR exampleRounding ?st (linearTransform (11 / 20) 0 0 (1 / 2))) (10, 10)
      = (Finite 11, Finite 10)"
    using pivot_image_rounded[of exampleRounding ?st "11 / 20" 0 0 "1 / 2"]
    by (simp add: p roundedCoordinate_def exampleRounding_values)
  have u: "(0::real) \<le> 1 / 8" "(1::real) / 8 \<le> 1 / 8"
    by simp_all
  from pivot_fixed_up_to_rounding[OF u acc, THEN conjunct2]
  have "\<exists>X Y. applyAffineR exampleRounding
        (aboutPivotR exampleRounding ?st (linearTransform (11 / 20) 0 0 (1 / 2))) (10, 10)
      = (Finite X, Finite Y)
      \<and> \<bar>X - 10\<bar> \<le> 7 * (1 / 8) * (\<bar>11 / 20 * 10\<bar> + \<bar>0 * 10\<bar> + \<bar>10\<bar>)
      \<and> \<bar>Y - 10\<bar> \<le> 7 * (1 / 8) * (\<bar>0 * 10\<bar> + \<bar>1 / 2 * 10\<bar> + \<bar>10\<bar>)"
    unfolding p .
  with acc img show ?thesis
    by (simp add: list_all_iff)
qed

text \<open>
  Claim C2 as stated says that the image is the pivot itself, for every transform that
  \<open>continueTransform\<close> builds. For cells whose outline bounding box has no width,
  \<open>TopLeftScale\<close> divides by \<open>0\<close>: pressing at \<open>(0, 0)\<close> and dragging to \<open>(5, 5)\<close> gives an
  x factor that is not finite, the transform is handed to the cached cells all the same,
  and the x coordinate of the image of the pivot \<open>(0, 10)\<close> is not finite, whatever the
  rounding (\<open>applyAffineR_NonFinite\<close>).
\<close>

theorem pivot_moves_on_flat_box:
  "continueTransform
      (fst (beginTransform exampleFlatScene (exampleTool TopLeftScale) [exampleEdge] 0 0 (0::nat)))
      [exampleEdge] 5 5
   = Some (\<lparr>a11 = NonFinite, a12 = Finite 0, a21 = Finite 0, a22 = Finite 0.5,
             t1 = NonFinite, t2 = Finite 5\<rparr>,
           [KeyEdge_performAffineTransform exampleEdge
              \<lparr>a11 = NonFinite, a12 = Finite 0, a21 = Finite 0, a22 = Finite 0.5,
               t1 = NonFinite, t2 = Finite 5\<rparr>,
            KeyVertex_performAffineTransform exampleVertexA
              \<lparr>a11 = NonFinite, a12 = Finite 0, a21 = Finite 0, a22 = Finite 0.5,
               t1 = NonFinite, t2 = Finite 5\<rparr>,
            KeyVertex_performAffineTransform exampleVertexB
              \<lparr>a11 = NonFinite, a12 = Finite 0, a21 = Finite 0, a22 = Finite 0.5,
               t1 = NonFinite, t2 = Finite 5\<rparr>,
            KeyVertex_correctEdgesGeometry exampleVertexA,
            KeyVertex_correctEdgesGeometry exampleVertexB])
   \<and> xPivot' (fst (beginTransform exampleFlatScene (exampleTool TopLeftScale) [exampleEdge] 0 0 (0::nat))) = 0
   \<and> yPivot' (fst (beginTransform exampleFlatScene (exampleTool TopLeftScale) [exampleEdge] 0 0 (0::nat))) = 10
   \<and> fst (applyAffineR id
        \<lparr>a11 = NonFinite, a12 = Finite 0, a21 = Finite 0, a22 = Finite 0.5,
         t1 = NonFinite, t2 = Finite 5\<rparr> (0, 10))
       = NonFinite
   \<and> fst (applyAffineR id
        \<lparr>a11 = NonFinite, a12 = Finite 0, a21 = Finite 0, a22 = Finite 0.5,
         t1 = NonFinite, t2 = Finite 5\<rparr> (0, 10))
       \<noteq> Finite 0"
proof -
  let ?st = "fst (beginTransform exampleFlatScene (exampleTool TopLeftScale) [exampleEdge] 0 0 (0::nat))"
  have h: "isCornerScale (hovered ?st)"
    by (simp add: example_flat_begin hovered_def) (simp add: exampleTool_def isCornerScale_def)
  have c: "[exampleEdge] \<noteq> []" by simp
  have r: "xRatio ?st 5 = NonFinite" "yRatio ?st 5 = Finite 0.5"
    by (simp_all add: xRatio_def yRatio_def example_flat_begin ddiv_def)
  have a: "aboutPivot ?st (Scaling NonFinite (Finite 0.5))
      = \<lparr>a11 = NonFinite, a12 = Finite 0, a21 = Finite 0, a22 = Finite 0.5,
             t1 = NonFinite, t2 = Finite 5\<rparr>"
    by (simp add: aboutPivot_def example_flat_begin Scaling_def affineTimesTranslation_def
        translationTimesAffine_def translationInverse_def Translation2d_def)
  from continueTransform_cornerScale[OF h c, of 5 5]
  have "continueTransform ?st [exampleEdge] 5 5
      = Some (\<lparr>a11 = NonFinite, a12 = Finite 0, a21 = Finite 0, a22 = Finite 0.5,
             t1 = NonFinite, t2 = Finite 5\<rparr>,
          transformCalls ?st \<lparr>a11 = NonFinite, a12 = Finite 0, a21 = Finite 0, a22 = Finite 0.5,
             t1 = NonFinite, t2 = Finite 5\<rparr>)"
    by (simp only: r a)
  then show ?thesis
    by (simp add: transformCalls_def example_flat_begin applyAffineR_def)
qed

subsection \<open>What beginTransform caches\<close>

lemma closureOfCell_self: "c \<in> set (closureOfCell c)"
  by (cases c) simp

lemma closureOfCell_boundary:
  "x \<in> set (closureOfCell c) \<Longrightarrow> b \<in> set (boundary x) \<Longrightarrow> b \<in> set (closureOfCell c)"
proof (induction c)
  case (Cell i k bs)
  from Cell.prems(1) consider "x = Cell i k bs" | c' where "c' \<in> set bs" "x \<in> set (closureOfCell c')"
    by auto
  then show ?case
  proof cases
    case 1
    with Cell.prems(2) have "b \<in> set bs" by simp
    then show ?thesis
      using closureOfCell_self[of b] by auto
  next
    case 2
    with Cell.IH[of c'] Cell.prems(2) have "b \<in> set (closureOfCell c')" by simp
    with 2 show ?thesis by auto
  qed
qed

lemma closureOfCell_least:
  assumes closed: "\<And>x b. x \<in> S \<Longrightarrow> b \<in> set (boundary x) \<Longrightarrow> b \<in> S"
    and "c \<in> S"
  shows "set (closureOfCell c) \<subseteq> S"
  using assms(2)
proof (induction c)
  case (Cell i k bs)
  have "set (closureOfCell c') \<subseteq> S" if "c' \<in> set bs" for c'
  proof -
    from closed[OF Cell.prems, of c'] that have "c' \<in> S" by simp
    with Cell.IH[OF that] show ?thesis .
  qed
  with Cell.prems show ?case by auto
qed

lemma Algorithms_closure_superset: "set cells \<subseteq> set (Algorithms_closure cells)"
  using closureOfCell_self by (auto simp: Algorithms_closure_def)

lemma Algorithms_closure_closed:
  "x \<in> set (Algorithms_closure cells) \<Longrightarrow> b \<in> set (boundary x)
     \<Longrightarrow> b \<in> set (Algorithms_closure cells)"
  using closureOfCell_boundary by (auto simp: Algorithms_closure_def)

lemma Algorithms_closure_least:
  assumes "set cells \<subseteq> S" and "\<And>x b. x \<in> S \<Longrightarrow> b \<in> set (boundary x) \<Longrightarrow> b \<in> S"
  shows "set (Algorithms_closure cells) \<subseteq> S"
proof
  fix x
  assume "x \<in> set (Algorithms_closure cells)"
  then obtain c where c: "c \<in> set cells" and x: "x \<in> set (closureOfCell c)"
    by (auto simp: Algorithms_closure_def)
  from c assms(1) have "c \<in> S" by auto
  then have "set (closureOfCell c) \<subseteq> S"
    using assms(2) by (intro closureOfCell_least) auto
  with x show "x \<in> S"
    by auto
qed

lemma Algorithms_closure_distinct: "distinct (Algorithms_closure cells)"
  by (simp add: Algorithms_closure_def)

lemma set_insertCell: "set (insertCell s c) = insert c (set s)"
  by (auto simp: insertCell_def)

lemma set_foldl_insertCell: "set (foldl insertCell s cs) = set s \<union> set cs"
  by (induction cs arbitrary: s) (auto simp: set_insertCell)

lemma sortCell_step:
  "sortCell env time (a, b) c =
     (if toInbetweenCell c \<and> cellExists env c time then (a, insertCell b c)
      else (insertCell a c, b))"
  by (simp add: sortCell_def)

lemma set_sortCell_fold:
  "set (fst (foldl (sortCell env time) (a, b) cells))
     = set a \<union> {c \<in> set cells. \<not> (toInbetweenCell c \<and> cellExists env c time)}
   \<and> set (snd (foldl (sortCell env time) (a, b) cells))
     = set b \<union> {c \<in> set cells. toInbetweenCell c \<and> cellExists env c time}"
proof (induction cells arbitrary: a b)
  case Nil
  then show ?case by simp
next
  case (Cons c cells)
  show ?case
    by (auto simp: sortCell_step Cons.IH set_insertCell)
qed

lemma set_cellsNotToKeyframe:
  "set (cellsNotToKeyframe env cells time)
     = {c \<in> set cells. \<not> (toInbetweenCell c \<and> cellExists env c time)}"
  using set_sortCell_fold[of env time "[]" "[]" cells] by (simp add: cellsNotToKeyframe_def)

lemma set_cellsToKeyframe:
  "set (cellsToKeyframe env cells time)
     = {c \<in> set cells. toInbetweenCell c \<and> cellExists env c time}"
  using set_sortCell_fold[of env time "[]" "[]" cells] by (simp add: cellsToKeyframe_def)

lemma set_cellsToTransform:
  "set (cellsToTransform env cells time)
     = set (cellsNotToKeyframe env cells time)
       \<union> set (keyframe' env (cellsToKeyframe env cells time) time)"
  by (simp add: cellsToTransform_def set_foldl_insertCell)

lemma beginTransform_dragged:
  assumes "hovered st \<noteq> None'" and "cells \<noteq> []"
  shows "draggedVertices' (fst (beginTransform env st cells x0 y0 time))
           = KeyVertexSet (Algorithms_closure (cellsToTransform env cells time))"
    and "draggedEdges' (fst (beginTransform env st cells x0 y0 time))
           = KeyEdgeSet (Algorithms_closure (cellsToTransform env cells time))"
    and "snd (beginTransform env st cells x0 y0 time)
           = map KeyEdge_prepareAffineTransform
               (KeyEdgeSet (Algorithms_closure (cellsToTransform env cells time)))
             @ map KeyVertex_prepareAffineTransform
               (KeyVertexSet (Algorithms_closure (cellsToTransform env cells time)))"
  using assms by (simp_all add: beginTransform_def Let_def hovered_def foldl_log)

lemma example_closure_keyframed:
  "Algorithms_closure (cellsToTransform exampleScene [exampleInbetweenEdge, exampleVertexA] t)
     = [exampleVertexA, exampleKeyframedEdge, Cell 6 KeyVertexKind [], Cell 7 KeyVertexKind []]"
  by (simp add: Algorithms_closure_def cellsToTransform_def cellsNotToKeyframe_def
      cellsToKeyframe_def sortCell_def insertCell_def toInbetweenCell_def exampleScene_def
      exampleInbetweenEdge_def exampleKeyframedEdge_def exampleVertexA_def)

text \<open>
  Claim C1. After \<open>beginTransform\<close> with a hovered widget and a non-empty cell set, the
  cached vertices and edges are exactly the key vertices and the key edges of the
  topological closure of the cells to transform, which are the cells not keyframed
  together with the key cells that keyframing returns. The closure contains the cells to
  transform and, with every cell, its boundary; so every key vertex in the boundary of a
  cached edge is cached: no edge is cached without its incident vertices.
\<close>

theorem dragged_cells_closed:
  assumes "hovered st \<noteq> None'" and "cells \<noteq> []"
  shows "set (draggedVertices' (fst (beginTransform env st cells x0 y0 time)))
           = {c \<in> set (Algorithms_closure (cellsToTransform env cells time)). toKeyVertex c}
    \<and> set (draggedEdges' (fst (beginTransform env st cells x0 y0 time)))
           = {c \<in> set (Algorithms_closure (cellsToTransform env cells time)). toKeyEdge c}
    \<and> set (cellsToTransform env cells time)
           = {c \<in> set cells. \<not> (toInbetweenCell c \<and> cellExists env c time)}
             \<union> set (keyframe' env (cellsToKeyframe env cells time) time)
    \<and> set (cellsToKeyframe env cells time)
           = {c \<in> set cells. toInbetweenCell c \<and> cellExists env c time}
    \<and> set (cellsToTransform env cells time)
           \<subseteq> set (Algorithms_closure (cellsToTransform env cells time))
    \<and> (\<forall>c \<in> set (Algorithms_closure (cellsToTransform env cells time)).
          set (boundary c) \<subseteq> set (Algorithms_closure (cellsToTransform env cells time)))
    \<and> (\<forall>e \<in> set (draggedEdges' (fst (beginTransform env st cells x0 y0 time))).
          \<forall>v \<in> set (boundary e).
            toKeyVertex v \<longrightarrow> v \<in> set (draggedVertices' (fst (beginTransform env st cells x0 y0 time))))"
  using Algorithms_closure_closed[of _ "cellsToTransform env cells time"]
    Algorithms_closure_superset[of "cellsToTransform env cells time"]
  by (auto simp: beginTransform_dragged[OF assms] KeyVertexSet_def KeyEdgeSet_def
      set_cellsToTransform set_cellsNotToKeyframe set_cellsToKeyframe)

theorem dragged_cells_closed_witness:
  "exampleKeyframedEdge
     \<in> set (draggedEdges' (fst (beginTransform exampleScene (exampleTool TopLeftScale)
                                  [exampleInbetweenEdge, exampleVertexA] 0 0 (0::nat))))
   \<and> boundary exampleKeyframedEdge = [Cell 6 KeyVertexKind [], Cell 7 KeyVertexKind []]
   \<and> Cell 6 KeyVertexKind []
     \<in> set (draggedVertices' (fst (beginTransform exampleScene (exampleTool TopLeftScale)
                                  [exampleInbetweenEdge, exampleVertexA] 0 0 (0::nat))))
   \<and> Cell 7 KeyVertexKind []
     \<in> set (draggedVertices' (fst (beginTransform exampleScene (exampleTool TopLeftScale)
                                  [exampleInbetweenEdge, exampleVertexA] 0 0 (0::nat))))
   \<and> exampleInbetweenEdge
     \<notin> set (draggedEdges' (fst (beginTransform exampleScene (exampleTool TopLeftScale)
                                  [exampleInbetweenEdge, exampleVertexA] 0 0 (0::nat))))"
proof -
  let ?cells = "[exampleInbetweenEdge, exampleVertexA]"
  let ?st = "fst (beginTransform exampleScene (exampleTool TopLeftScale) ?cells 0 0 (0::nat))"
  have h: "hovered (exampleTool TopLeftScale) \<noteq> None'"
    by (simp add: hovered_def exampleTool_def)
  have c: "?cells \<noteq> []" by simp
  note t = dragged_cells_closed[OF h c, of exampleScene 0 0 0]
  have b: "boundary exampleKeyframedEdge = [Cell 6 KeyVertexKind [], Cell 7 KeyVertexKind []]"
    by (simp add: exampleKeyframedEdge_def)
  have k: "toKeyEdge exampleKeyframedEdge" "\<not> toKeyEdge exampleInbetweenEdge"
    "toKeyVertex (Cell 6 KeyVertexKind [])" "toKeyVertex (Cell 7 KeyVertexKind [])"
    by (simp_all add: toKeyEdge_def toKeyVertex_def exampleKeyframedEdge_def
        exampleInbetweenEdge_def)
  from t have "set (draggedEdges' ?st)
      = {c \<in> set (Algorithms_closure (cellsToTransform exampleScene ?cells 0)). toKeyEdge c}"
    by blast
  with k have e: "exampleKeyframedEdge \<in> set (draggedEdges' ?st)"
    and n: "exampleInbetweenEdge \<notin> set (draggedEdges' ?st)"
    by (simp_all add: example_closure_keyframed)
  from t e have "\<forall>v \<in> set (boundary exampleKeyframedEdge).
      toKeyVertex v \<longrightarrow> v \<in> set (draggedVertices' ?st)"
    by blast
  with b k have "Cell 6 KeyVertexKind [] \<in> set (draggedVertices' ?st)"
    "Cell 7 KeyVertexKind [] \<in> set (draggedVertices' ?st)"
    by simp_all
  with e n b show ?thesis by simp
qed

text \<open>
  Claim C5. \<open>beginTransform\<close> starts by clearing the cached vertices and edges: its
  outcome never depends on what they held. When no widget is hovered or the cell set is
  empty it then returns: the caches are empty, every other field of the state is
  unchanged and no call is made.
\<close>

theorem beginTransform_clears_cache_and_aborts:
  "beginTransform env st cells x0 y0 time
     = beginTransform env (st\<lparr>draggedVertices' := [], draggedEdges' := []\<rparr>) cells x0 y0 time
   \<and> (hovered st = None' \<or> cells = [] \<longrightarrow>
        beginTransform env st cells x0 y0 time
          = (st\<lparr>draggedVertices' := [], draggedEdges' := []\<rparr>, []))"
  by (simp add: beginTransform_def hovered_def)

theorem beginTransform_clears_cache_and_aborts_witness:
  "beginTransform exampleScene
     ((exampleTool None')\<lparr>draggedVertices' := [exampleVertexA], draggedEdges' := [exampleEdge]\<rparr>)
     [exampleEdge] 1 2 (0::nat)
   = (exampleTool None', [])
   \<and> beginTransform exampleScene
     ((exampleTool TopLeftScale)\<lparr>draggedVertices' := [exampleVertexA], draggedEdges' := [exampleEdge]\<rparr>)
     [] 1 2 (0::nat)
   = (exampleTool TopLeftScale, [])"
proof -
  have a: "hovered ((exampleTool None')\<lparr>draggedVertices' := [exampleVertexA],
      draggedEdges' := [exampleEdge]\<rparr>) = None'"
    by (simp add: hovered_def exampleTool_def)
  have e: "(exampleTool w)\<lparr>draggedVertices' := vs, draggedEdges' := es\<rparr>
              \<lparr>draggedVertices' := [], draggedEdges' := []\<rparr> = exampleTool w" for w vs es
    by (simp add: exampleTool_def newTransformTool_def)
  from beginTransform_clears_cache_and_aborts
    [of exampleScene "(exampleTool None')\<lparr>draggedVertices' := [exampleVertexA],
      draggedEdges' := [exampleEdge]\<rparr>" "[exampleEdge]" 1 2 0, unfolded e] a
  have 1: "beginTransform exampleScene
     ((exampleTool None')\<lparr>draggedVertices' := [exampleVertexA], draggedEdges' := [exampleEdge]\<rparr>)
     [exampleEdge] 1 2 (0::nat) = (exampleTool None', [])"
    by blast
  from beginTransform_clears_cache_and_aborts
    [of exampleScene "(exampleTool TopLeftScale)\<lparr>draggedVertices' := [exampleVertexA],
      draggedEdges' := [exampleEdge]\<rparr>" "[]" 1 2 0, unfolded e]
  have 2: "beginTransform exampleScene
     ((exampleTool TopLeftScale)\<lparr>draggedVertices' := [exampleVertexA], draggedEdges' := [exampleEdge]\<rparr>)
     [] 1 2 (0::nat) = (exampleTool TopLeftScale, [])"
    by blast
  from 1 2 show ?thesis by simp
qed

subsection \<open>The layout of the arrow contour\<close>

lemma arrowBody_spec:
  assumes "n - i = d" and "i \<le> n" and "lo = 3 + i" and "hi + i = 2 * n + 5"
    and "length res = 2 * n + 6"
  shows "length (arrowBody n c rmin rmax sa da i lo hi res) = 2 * n + 6
    \<and> (\<forall>j. i \<le> j \<and> j < n \<longrightarrow>
          arrowBody n c rmin rmax sa da i lo hi res ! (3 + j)
            = p_unit c rmin (u' (sa + real j * da))
          \<and> arrowBody n c rmin rmax sa da i lo hi res ! (2 * n + 5 - j)
            = p_unit c rmax (u' (sa + real j * da)))
    \<and> (\<forall>k. k < 3 + i \<or> (n + 2 < k \<and> k < n + 6) \<or> 2 * n + 5 < k + i \<longrightarrow>
          arrowBody n c rmin rmax sa da i lo hi res ! k = res ! k)"
  using assms
proof (induction d arbitrary: i lo hi res)
  case 0
  then have "arrowBody n c rmin rmax sa da i lo hi res = res"
    by (subst arrowBody.simps) simp
  with 0 show ?case by auto
next
  case (Suc d)
  then have lt: "i < n" by simp
  let ?a = "p_unit c rmin (u' (sa + real i * da))"
  let ?b = "p_unit c rmax (u' (sa + real i * da))"
  let ?res = "res[lo := ?a, hi := ?b]"
  let ?r = "arrowBody n c rmin rmax sa da (i + 1) (lo + 1) (hi - 1) ?res"
  have unfold: "arrowBody n c rmin rmax sa da i lo hi res = ?r"
    using lt by (subst arrowBody.simps) (simp add: Let_def)
  have ih: "length ?r = 2 * n + 6
    \<and> (\<forall>j. i + 1 \<le> j \<and> j < n \<longrightarrow>
          ?r ! (3 + j) = p_unit c rmin (u' (sa + real j * da))
          \<and> ?r ! (2 * n + 5 - j) = p_unit c rmax (u' (sa + real j * da)))
    \<and> (\<forall>k. k < 3 + (i + 1) \<or> (n + 2 < k \<and> k < n + 6) \<or> 2 * n + 5 < k + (i + 1) \<longrightarrow>
          ?r ! k = ?res ! k)"
    using Suc.prems lt by (intro Suc.IH) simp_all
  have lohi: "lo \<noteq> hi" "lo < length res" "hi < length res" "hi = 2 * n + 5 - i"
    using Suc.prems lt by simp_all
  have at_lo: "?r ! (3 + i) = ?a"
  proof -
    from ih have "?r ! (3 + i) = ?res ! (3 + i)" by simp
    also have "\<dots> = ?a" using lohi Suc.prems(3) by simp
    finally show ?thesis .
  qed
  have at_hi: "?r ! (2 * n + 5 - i) = ?b"
  proof -
    have "2 * n + 5 < (2 * n + 5 - i) + (i + 1)" using lt by simp
    with ih have "?r ! (2 * n + 5 - i) = ?res ! (2 * n + 5 - i)" by blast
    also have "\<dots> = ?b" using lohi by simp
    finally show ?thesis .
  qed
  have body: "?r ! (3 + j) = p_unit c rmin (u' (sa + real j * da))
          \<and> ?r ! (2 * n + 5 - j) = p_unit c rmax (u' (sa + real j * da))"
    if "i \<le> j \<and> j < n" for j
  proof (cases "j = i")
    case True
    with at_lo at_hi show ?thesis by simp
  next
    case False
    with that have "i + 1 \<le> j \<and> j < n" by simp
    with ih show ?thesis by blast
  qed
  have rest: "?r ! k = res ! k"
    if "k < 3 + i \<or> (n + 2 < k \<and> k < n + 6) \<or> 2 * n + 5 < k + i" for k
  proof -
    from that have "k < 3 + (i + 1) \<or> (n + 2 < k \<and> k < n + 6) \<or> 2 * n + 5 < k + (i + 1)"
      by auto
    with ih have "?r ! k = ?res ! k" by blast
    moreover from that lohi Suc.prems(3) lt have "k \<noteq> lo" "k \<noteq> hi" by auto
    ultimately show ?thesis by simp
  qed
  from ih body rest show ?case
    unfolding unfold by blast
qed


lemma computeArrow'_unfold:
  "computeArrow' ident bb zoom =
     arrowBody rotateWidgetNumSamples (arrowCenter ident bb zoom) (rMinBody zoom) (rMaxBody zoom)
       (startAngle ident) deltaAngle 0 3 (2 * rotateWidgetNumSamples + 5)
       ((replicate (2 * rotateWidgetNumSamples + 6) (0, 0))
          [0 := firstArrowHead ident bb zoom ! 0,
           1 := firstArrowHead ident bb zoom ! 1,
           2 := firstArrowHead ident bb zoom ! 2,
           rotateWidgetNumSamples + 3 := secondArrowHead ident bb zoom ! 0,
           rotateWidgetNumSamples + 4 := secondArrowHead ident bb zoom ! 1,
           rotateWidgetNumSamples + 5 := secondArrowHead ident bb zoom ! 2])"
  by (simp add: computeArrow'_def Let_def firstArrowHead_def secondArrowHead_def
      arrowCenter_def arrowSize_def rCenterline_def rMaxHead_def rMinHead_def rMaxBody_def
      rMinBody_def startAngle_def endAngle_def deltaAngle_def)

lemma computeArrow'_layout:
  "length (computeArrow' ident bb zoom) = 2 * rotateWidgetNumSamples + 6
   \<and> [computeArrow' ident bb zoom ! 0, computeArrow' ident bb zoom ! 1,
       computeArrow' ident bb zoom ! 2] = firstArrowHead ident bb zoom
   \<and> [computeArrow' ident bb zoom ! (rotateWidgetNumSamples + 3),
       computeArrow' ident bb zoom ! (rotateWidgetNumSamples + 4),
       computeArrow' ident bb zoom ! (rotateWidgetNumSamples + 5)] = secondArrowHead ident bb zoom
   \<and> (\<forall>i. i < rotateWidgetNumSamples \<longrightarrow>
         computeArrow' ident bb zoom ! (3 + i)
           = p_unit (arrowCenter ident bb zoom) (rMinBody zoom)
               (u' (startAngle ident + real i * deltaAngle))
         \<and> computeArrow' ident bb zoom ! (2 * rotateWidgetNumSamples + 5 - i)
           = p_unit (arrowCenter ident bb zoom) (rMaxBody zoom)
               (u' (startAngle ident + real i * deltaAngle)))"
proof -
  let ?n = rotateWidgetNumSamples
  let ?heads = "(replicate (2 * ?n + 6) (0, 0))
          [0 := firstArrowHead ident bb zoom ! 0,
           1 := firstArrowHead ident bb zoom ! 1,
           2 := firstArrowHead ident bb zoom ! 2,
           ?n + 3 := secondArrowHead ident bb zoom ! 0,
           ?n + 4 := secondArrowHead ident bb zoom ! 1,
           ?n + 5 := secondArrowHead ident bb zoom ! 2]"
  have len: "length ?heads = 2 * ?n + 6" by simp
  have p: "?n - 0 = ?n" "0 \<le> ?n" "3 = 3 + (0::nat)" "2 * ?n + 5 + 0 = 2 * ?n + 5"
    by simp_all
  note s = arrowBody_spec[OF p len, of "arrowCenter ident bb zoom"
      "rMinBody zoom" "rMaxBody zoom" "startAngle ident" deltaAngle,
      folded computeArrow'_unfold]
  have l: "length (computeArrow' ident bb zoom) = 2 * ?n + 6"
    using s by (rule conjunct1)
  have body: "\<forall>j. 0 \<le> j \<and> j < ?n \<longrightarrow>
          computeArrow' ident bb zoom ! (3 + j)
            = p_unit (arrowCenter ident bb zoom) (rMinBody zoom) (u' (startAngle ident + real j * deltaAngle))
          \<and> computeArrow' ident bb zoom ! (2 * ?n + 5 - j)
            = p_unit (arrowCenter ident bb zoom) (rMaxBody zoom) (u' (startAngle ident + real j * deltaAngle))"
    using s by (rule conjunct1[OF conjunct2])
  have keep: "\<forall>k. k < 3 + 0 \<or> (?n + 2 < k \<and> k < ?n + 6) \<or> 2 * ?n + 5 < k + 0 \<longrightarrow>
      computeArrow' ident bb zoom ! k = ?heads ! k"
    using s by (rule conjunct2[OF conjunct2])
  have k0: "computeArrow' ident bb zoom ! 0 = ?heads ! 0"
    and k1: "computeArrow' ident bb zoom ! 1 = ?heads ! 1"
    and k2: "computeArrow' ident bb zoom ! 2 = ?heads ! 2"
    and k3: "computeArrow' ident bb zoom ! (?n + 3) = ?heads ! (?n + 3)"
    and k4: "computeArrow' ident bb zoom ! (?n + 4) = ?heads ! (?n + 4)"
    and k5: "computeArrow' ident bb zoom ! (?n + 5) = ?heads ! (?n + 5)"
    using keep by simp_all
  have h1: "[computeArrow' ident bb zoom ! 0, computeArrow' ident bb zoom ! 1,
       computeArrow' ident bb zoom ! 2] = firstArrowHead ident bb zoom"
    unfolding k0 k1 k2 by (simp add: firstArrowHead_def)
  have h2: "[computeArrow' ident bb zoom ! (?n + 3), computeArrow' ident bb zoom ! (?n + 4),
       computeArrow' ident bb zoom ! (?n + 5)] = secondArrowHead ident bb zoom"
    unfolding k3 k4 k5 by (simp add: secondArrowHead_def)
  from body l h1 h2 show ?thesis by simp
qed

lemma circle_point_neq:
  assumes "r\<^sup>2 \<noteq> s\<^sup>2"
  shows "p_unit c r (u' a) \<noteq> p_unit c s (u' b)"
proof
  assume "p_unit c r (u' a) = p_unit c s (u' b)"
  then have e: "r * cos a = s * cos b" "r * sin a = s * sin b"
    by (cases c; simp add: p_unit_def u'_def)+
  have "r\<^sup>2 = (r * cos a)\<^sup>2 + (r * sin a)\<^sup>2"
    by (simp add: power_mult_distrib flip: distrib_left)
  also have "\<dots> = (s * cos b)\<^sup>2 + (s * sin b)\<^sup>2"
    by (simp only: e)
  also have "\<dots> = s\<^sup>2"
    by (simp add: power_mult_distrib flip: distrib_left)
  finally show False using assms by simp
qed

lemma tip_norm_poly:
  fixes rc h x y :: real
  shows "(rc * x - h * y)\<^sup>2 + (rc * y + h * x)\<^sup>2 = (rc\<^sup>2 + h\<^sup>2) * (y\<^sup>2 + x\<^sup>2)"
  by algebra

lemma tip_norm:
  fixes rc h b :: real
  shows "(rc * cos b - h * sin b)\<^sup>2 + (rc * sin b + h * cos b)\<^sup>2 = rc\<^sup>2 + h\<^sup>2"
  using tip_norm_poly[of rc "cos b" h "sin b"] by simp

lemma circle_point_neq_tip:
  assumes "r\<^sup>2 \<noteq> rc\<^sup>2 + h\<^sup>2"
  shows "p_unit c r (u' a) \<noteq> vadd (p_unit c rc (u' b)) (smul h (- snd (u' b), fst (u' b)))"
    and "p_unit c r (u' a) \<noteq> vsub (p_unit c rc (u' b)) (smul h (- snd (u' b), fst (u' b)))"
proof -
  have r: "r\<^sup>2 = (r * cos a)\<^sup>2 + (r * sin a)\<^sup>2"
    by (simp add: power_mult_distrib flip: distrib_left)
  show "p_unit c r (u' a) \<noteq> vadd (p_unit c rc (u' b)) (smul h (- snd (u' b), fst (u' b)))"
  proof
    assume "p_unit c r (u' a) = vadd (p_unit c rc (u' b)) (smul h (- snd (u' b), fst (u' b)))"
    then have e: "r * cos a = rc * cos b - h * sin b" "r * sin a = rc * sin b + h * cos b"
      by (cases c; simp add: p_unit_def u'_def)+
    from r have "r\<^sup>2 = rc\<^sup>2 + h\<^sup>2"
      by (simp only: e tip_norm)
    with assms show False by simp
  qed
  show "p_unit c r (u' a) \<noteq> vsub (p_unit c rc (u' b)) (smul h (- snd (u' b), fst (u' b)))"
  proof
    assume "p_unit c r (u' a) = vsub (p_unit c rc (u' b)) (smul h (- snd (u' b), fst (u' b)))"
    then have e: "r * cos a = rc * cos b - (- h) * sin b" "r * sin a = rc * sin b + (- h) * cos b"
      by (cases c; simp add: p_unit_def u'_def)+
    from r have "r\<^sup>2 = rc\<^sup>2 + (- h)\<^sup>2"
      by (simp only: e tip_norm)
    with assms show False by simp
  qed
qed

text \<open>
  Claim C7, as the code has it. For every widget, bounding box and zoom the contour has
  exactly \<open>2 * n + 6\<close> points, \<open>n\<close> the sample count. The points \<open>0, 1, 2\<close> are the first
  arrowhead and the points \<open>n + 3, n + 4, n + 5\<close> the second. For \<open>i < n\<close> the point
  \<open>3 + i\<close> lies on the inner radius at the angle \<open>startAngle + i * deltaAngle\<close> and the
  mirrored point \<open>2 * n + 5 - i\<close> on the outer radius at the same angle. The second
  arrowhead sits in the middle of the sequence: the last three points are the points of
  the outer radius at the first three angles, in reverse order.
\<close>

theorem arrow_contour_layout:
  "length (computeArrow' ident bb zoom) = 2 * rotateWidgetNumSamples + 6
   \<and> [computeArrow' ident bb zoom ! 0, computeArrow' ident bb zoom ! 1,
       computeArrow' ident bb zoom ! 2] = firstArrowHead ident bb zoom
   \<and> [computeArrow' ident bb zoom ! (rotateWidgetNumSamples + 3),
       computeArrow' ident bb zoom ! (rotateWidgetNumSamples + 4),
       computeArrow' ident bb zoom ! (rotateWidgetNumSamples + 5)] = secondArrowHead ident bb zoom
   \<and> (\<forall>i. i < rotateWidgetNumSamples \<longrightarrow>
         computeArrow' ident bb zoom ! (3 + i)
           = p_unit (arrowCenter ident bb zoom) (rMinBody zoom)
               (u' (startAngle ident + real i * deltaAngle))
         \<and> computeArrow' ident bb zoom ! (2 * rotateWidgetNumSamples + 5 - i)
           = p_unit (arrowCenter ident bb zoom) (rMaxBody zoom)
               (u' (startAngle ident + real i * deltaAngle)))
   \<and> drop (2 * rotateWidgetNumSamples + 3) (computeArrow' ident bb zoom)
       = [p_unit (arrowCenter ident bb zoom) (rMaxBody zoom)
            (u' (startAngle ident + 2 * deltaAngle)),
          p_unit (arrowCenter ident bb zoom) (rMaxBody zoom)
            (u' (startAngle ident + 1 * deltaAngle)),
          p_unit (arrowCenter ident bb zoom) (rMaxBody zoom)
            (u' (startAngle ident + 0 * deltaAngle))]"
proof -
  let ?n = rotateWidgetNumSamples
  let ?arrow = "computeArrow' ident bb zoom"
  let ?outer = "\<lambda>i. p_unit (arrowCenter ident bb zoom) (rMaxBody zoom)
            (u' (startAngle ident + real i * deltaAngle))"
  note lay = computeArrow'_layout[of ident bb zoom]
  have len: "length ?arrow = 2 * ?n + 6"
    using lay by (rule conjunct1)
  have outer: "?arrow ! (2 * ?n + 5 - i) = ?outer i" if "i < ?n" for i
    using lay that by blast
  have n: "?n = 20" by (simp add: rotateWidgetNumSamples_def)
  have o: "?arrow ! 45 = ?outer 0" "?arrow ! 44 = ?outer 1" "?arrow ! 43 = ?outer 2"
    using outer[of 0] outer[of 1] outer[of 2] by (simp_all add: n)
  have "drop 43 ?arrow = [?arrow ! 43, ?arrow ! 44, ?arrow ! 45]"
    using len by (intro nth_equalityI) (auto simp: n less_Suc_eq numeral_3_eq_3)
  with o have "drop (2 * ?n + 3) ?arrow = [?outer 2, ?outer 1, ?outer 0]"
    by (simp add: n)
  then have d: "drop (2 * ?n + 3) ?arrow
       = [p_unit (arrowCenter ident bb zoom) (rMaxBody zoom)
            (u' (startAngle ident + 2 * deltaAngle)),
          p_unit (arrowCenter ident bb zoom) (rMaxBody zoom)
            (u' (startAngle ident + 1 * deltaAngle)),
          p_unit (arrowCenter ident bb zoom) (rMaxBody zoom)
            (u' (startAngle ident + 0 * deltaAngle))]"
    by simp
  from lay d show ?thesis by blast
qed

theorem arrow_contour_layout_witness:
  "length (computeArrow' TopLeftRotate \<lparr>xMin = 0, xMax = 10, yMin = 0, yMax = 10\<rparr> 1) = 46
   \<and> computeArrow' TopLeftRotate \<lparr>xMin = 0, xMax = 10, yMin = 0, yMax = 10\<rparr> 1 ! 22
       = p_unit (arrowCenter TopLeftRotate \<lparr>xMin = 0, xMax = 10, yMin = 0, yMax = 10\<rparr> 1)
           (rMinBody 1) (u' (startAngle TopLeftRotate + 19 * deltaAngle))
   \<and> computeArrow' TopLeftRotate \<lparr>xMin = 0, xMax = 10, yMin = 0, yMax = 10\<rparr> 1 ! 26
       = p_unit (arrowCenter TopLeftRotate \<lparr>xMin = 0, xMax = 10, yMin = 0, yMax = 10\<rparr> 1)
           (rMaxBody 1) (u' (startAngle TopLeftRotate + 19 * deltaAngle))"
  using arrow_contour_layout[of TopLeftRotate "\<lparr>xMin = 0, xMax = 10, yMin = 0, yMax = 10\<rparr>" 1,
      THEN conjunct1]
    arrow_contour_layout[of TopLeftRotate "\<lparr>xMin = 0, xMax = 10, yMin = 0, yMax = 10\<rparr>" 1,
      THEN conjunct2, THEN conjunct2, THEN conjunct2, THEN conjunct1, THEN spec, of 19]
  by (simp add: rotateWidgetNumSamples_def)

text \<open>
  Claim C7 as stated also says that the last three points of the contour form an
  arrowhead. They do not: for \<open>TopLeftRotate\<close>, the box from \<open>(0, 0)\<close> to \<open>(10, 10)\<close> and zoom
  \<open>1\<close> the last point lies on the outer radius of the body and is none of the six points
  of the two arrowheads.
\<close>

theorem last_point_not_on_arrowhead:
  "last (computeArrow' TopLeftRotate \<lparr>xMin = 0, xMax = 10, yMin = 0, yMax = 10\<rparr> 1)
     \<notin> set (firstArrowHead TopLeftRotate \<lparr>xMin = 0, xMax = 10, yMin = 0, yMax = 10\<rparr> 1)
       \<union> set (secondArrowHead TopLeftRotate \<lparr>xMin = 0, xMax = 10, yMin = 0, yMax = 10\<rparr> 1)"
proof -
  let ?bb = "\<lparr>xMin = 0, xMax = 10, yMin = 0, yMax = 10\<rparr>"
  let ?arrow = "computeArrow' TopLeftRotate ?bb 1"
  let ?c = "arrowCenter TopLeftRotate ?bb 1"
  note lay = computeArrow'_layout[of TopLeftRotate ?bb 1]
  have len: "length ?arrow = 2 * rotateWidgetNumSamples + 6"
    using lay by (rule conjunct1)
  then have "?arrow \<noteq> []" by auto
  then have "last ?arrow = ?arrow ! (2 * rotateWidgetNumSamples + 5 - 0)"
    by (simp add: last_conv_nth len add.commute)
  also have "\<dots> = p_unit ?c (rMaxBody 1) (u' (startAngle TopLeftRotate + real 0 * deltaAngle))"
    using lay [THEN conjunct2, THEN conjunct2, THEN conjunct2, THEN spec, of 0]
    by (simp add: rotateWidgetNumSamples_def)
  finally have l: "last ?arrow = p_unit ?c (rMaxBody 1) (u' (startAngle TopLeftRotate))"
    by simp
  have sq: "(rMaxBody 1)\<^sup>2 \<noteq> (rMaxHead 1)\<^sup>2" "(rMaxBody 1)\<^sup>2 \<noteq> (rMinHead 1)\<^sup>2"
    "(rMaxBody 1)\<^sup>2 \<noteq> (rCenterline 1)\<^sup>2 + (rotateWidgetHeadHalfWidth * arrowSize 1)\<^sup>2"
    by (simp_all add: rMaxBody_def rMaxHead_def rMinHead_def rCenterline_def arrowSize_def
        rotateWidgetHeadHalfWidth_def rotateWidgetBodyHalfWidth_def rotateWidgetCircleRadius_def
        rotateWidgetSize_def scaleWidgetCornerSize_def SQRT2_def power2_eq_square)
  show ?thesis
    unfolding l firstArrowHead_def secondArrowHead_def
    using circle_point_neq[OF sq(1)] circle_point_neq[OF sq(2)]
      circle_point_neq_tip[OF sq(3)]
    by simp
qed

end
